theory Spec2Isabelle
  imports Complex_Main "HOL-Library.Word" "HOL-Library.AList"
begin

section \<open>JavaScript values\<close>

text \<open>
  A JavaScript string is a sequence of UTF-16 code units; \<open>slice\<close>, \<open>length\<close> and the
  regular expressions of the source all count code units. \<open>S\<close> embeds an ASCII literal.
\<close>

type_synonym jschar = "16 word"
type_synonym jsstring = "jschar list"

definition S :: "string \<Rightarrow> jsstring" where
  "S s = map of_char s"

text \<open>The placeholder title of the source, U+65E0 U+6807 U+9898.\<close>

definition NO_TITLE :: jsstring where
  "NO_TITLE = [0x65E0, 0x6807, 0x9898]"

text \<open>
  A field of declared type \<open>T\<close> that the data may leave out (\<open>undefined\<close>) or set to
  \<open>null\<close>.
\<close>

datatype 'a nullable = Undefined | Null | Value 'a

text \<open>Truthiness of a possibly missing string: missing, null and the empty string are falsy.\<close>

fun truthyStr :: "jsstring nullable \<Rightarrow> bool" where
  "truthyStr (Value s) = (s \<noteq> [])"
| "truthyStr _ = False"

text \<open>The operator \<open>??\<close>.\<close>

fun nullish :: "'a nullable \<Rightarrow> 'a \<Rightarrow> 'a" where
  "nullish (Value x) d = x"
| "nullish _ d = d"

text \<open>
  Numbers are IEEE doubles in the source; the model keeps the finite values as reals and
  the three special values apart. Only the tag and the test against zero are used.
\<close>

datatype number = Num real | NaN | Infinity | NegInfinity

text \<open>
  The numbers of a delay are computed from integers, so they are kept exactly: a double
  whose value is the integer \<open>m\<close> is \<open>Whole m\<close> (the two zeros are not told apart),
  beside the infinities and \<open>NaN\<close>.
\<close>

datatype idouble = Whole int | PlusInf | MinusInf | NotNumber

text \<open>The number of binary digits of \<open>n\<close>.\<close>

fun bitLength :: "nat \<Rightarrow> nat" where
  "bitLength n = (if n = 0 then 0 else Suc (bitLength (n div 2)))"

declare bitLength.simps [simp del]

text \<open>
  The double nearest to the integer \<open>m\<close>: \<open>m\<close> itself below \<open>2^53\<close>; beyond, the 53
  leading binary digits are kept and the rest is rounded, a tie to the even
  neighbour; from \<open>2^1024\<close> on the result is infinite.
\<close>

definition roundToDouble :: "int \<Rightarrow> idouble" where
  "roundToDouble m =
     (let a = nat \<bar>m\<bar>
      in if a < 2 ^ 53 then Whole m
         else
           let e = bitLength a - 53;
               q = a div 2 ^ e;
               r = a mod 2 ^ e;
               q' = (if 2 ^ e < 2 * r \<or> (2 * r = 2 ^ e \<and> odd q) then q + 1 else q);
               v = q' * 2 ^ e
           in if 2 ^ 1024 \<le> v then (if m < 0 then MinusInf else PlusInf)
              else Whole (if m < 0 then - int v else int v))"

text \<open>The product \<open>x * k\<close> of a double and a positive integer constant.\<close>

fun timesInt :: "idouble \<Rightarrow> int \<Rightarrow> idouble" where
  "timesInt (Whole a) k = roundToDouble (a * k)"
| "timesInt x k = x"

text \<open>\<open>Math.max(x, y)\<close>: \<open>NaN\<close> as soon as one argument is \<open>NaN\<close>.\<close>

fun Math_max :: "idouble \<Rightarrow> idouble \<Rightarrow> idouble" where
  "Math_max NotNumber y = NotNumber"
| "Math_max x NotNumber = NotNumber"
| "Math_max PlusInf y = PlusInf"
| "Math_max x PlusInf = PlusInf"
| "Math_max MinusInf y = y"
| "Math_max x MinusInf = x"
| "Math_max (Whole a) (Whole b) = Whole (max a b)"

text \<open>
  A dynamically typed value: what \<open>response.json\<close>, \<open>JSON.parse\<close> and the metadata
  cache hand to the program.
\<close>

datatype jsval =
    JUndefined
  | JNull
  | JBool bool
  | JNumber number
  | JString jsstring
  | JArray "jsval list"
  | JObject "(jsstring \<times> jsval) list"

fun truthy :: "jsval \<Rightarrow> bool" where
  "truthy JUndefined = False"
| "truthy JNull = False"
| "truthy (JBool b) = b"
| "truthy (JNumber n) = (n \<noteq> Num 0 \<and> n \<noteq> NaN)"
| "truthy (JString s) = (s \<noteq> [])"
| "truthy (JArray _) = True"
| "truthy (JObject _) = True"

text \<open>
  Optional chaining \<open>v?.k\<close> for the property names the program reads (\<open>c\<close>,
  \<open>has_content\<close>, \<open>content\<close>, \<open>success\<close>, \<open>token\<close>, \<open>frontmatter\<close>, \<open>biji_id\<close>,
  \<open>exp\<close>): none of them
  is a property of a primitive, of an array or of \<open>Object.prototype\<close>, so only an object's
  own entry answers.
\<close>

fun optProp :: "jsval \<Rightarrow> jsstring \<Rightarrow> jsval" where
  "optProp (JObject kvs) k = (case map_of kvs k of Some v \<Rightarrow> v | None \<Rightarrow> JUndefined)"
| "optProp _ k = JUndefined"

section \<open>types.ts\<close>

record BijiTag =
  tag_id :: jsstring
  tag_name :: jsstring
  tag_type :: jsstring

record Attachment =
  att_type :: jsstring
  att_url :: jsstring
  att_title :: jsstring

text \<open>
  The wire note. The interface declares every field a string (or an array); the fields
  that the normalizer guards against being missing or null carry \<open>nullable\<close>.
\<close>

record BijiNote =
  id_B :: "jsstring nullable"
  note_id :: jsstring
  title_B :: "jsstring nullable"
  content_B :: "jsstring nullable"
  body_text :: "jsstring nullable"
  source :: "jsstring nullable"
  note_type :: "jsstring nullable"
  entry_type :: "jsstring nullable"
  tags_B :: "BijiTag list nullable"
  attachments :: "Attachment list nullable"
  created_at :: jsstring
  updated_at :: jsstring
  edit_time :: jsstring

record RawNote =
  id_R :: jsstring
  title_R :: jsstring
  content_R :: jsstring
  tags_R :: "jsstring list"
  createdAt :: jsstring
  updatedAt :: jsstring
  sourceUrl :: "jsstring nullable"
  noteType :: "jsstring nullable"
  entryType :: "jsstring nullable"
  origin :: "jsstring nullable"
  originalContent :: "jsstring nullable"

section \<open>markdown.ts\<close>

text \<open>\<open>UNSAFE_CHARS\<close>: \<open>/ \ ? % * : | " < >\<close> and NUL.\<close>

definition UNSAFE_CHARS :: "jschar \<Rightarrow> bool" where
  "UNSAFE_CHARS c = (c \<in> set (S ''/?%*:|<>'') \<or> c = 0x5C \<or> c = 0x22 \<or> c = 0)"

text \<open>The class \<open>\s\<close>, which is also what \<open>trim\<close> strips.\<close>

definition isWhiteSpace :: "jschar \<Rightarrow> bool" where
  "isWhiteSpace c =
     (c \<in> {0x09, 0x0A, 0x0B, 0x0C, 0x0D, 0x20, 0xA0, 0x1680, 0x2028, 0x2029, 0x202F,
            0x205F, 0x3000, 0xFEFF}
      \<or> (0x2000 \<le> c \<and> c \<le> 0x200A))"

text \<open>\<open>.replace(/\s+/g, " ")\<close>: every maximal run of white space becomes one space.\<close>

function collapseWhitespace :: "jsstring \<Rightarrow> jsstring" where
  "collapseWhitespace [] = []"
| "collapseWhitespace (c # cs) =
     (if isWhiteSpace c then 0x20 # collapseWhitespace (dropWhile isWhiteSpace cs)
      else c # collapseWhitespace cs)"
  by pat_completeness auto
termination
  by (relation "measure length") (simp_all add: length_dropWhile_le le_imp_less_Suc)

definition trim :: "jsstring \<Rightarrow> jsstring" where
  "trim s = rev (dropWhile isWhiteSpace (rev (dropWhile isWhiteSpace s)))"

definition sanitizeFilename :: "jsstring \<Rightarrow> jsstring" where
  "sanitizeFilename name =
     (let result =
        take 200 (trim (dropWhile (\<lambda>c. c = 0x2E)
          (collapseWhitespace (filter (\<lambda>c. \<not> UNSAFE_CHARS c) name))))
      in if result = [] then NO_TITLE else result)"

text \<open>
  \<open>bijiNoteToRawNote\<close>. \<open>cleanHtml\<close> is a pure string rewriting of the same module
  (regular-expression replacements); nothing below depends on what it computes, so it is
  an argument.
\<close>

definition bijiNoteToRawNote :: "(jsstring \<Rightarrow> jsstring) \<Rightarrow> BijiNote \<Rightarrow> RawNote option" where
  "bijiNoteToRawNote cleanHtml note =
     (if \<not> truthyStr (id_B note) then None
      else
        let tagNames = map tag_name
              (filter (\<lambda>t. tag_name t \<noteq> [] \<and> tag_type t \<noteq> S ''system'')
                 (nullish (tags_B note) []));
            sourceUrl = (case find (\<lambda>a. att_url a \<noteq> []) (nullish (attachments note) []) of
                           None \<Rightarrow> Undefined
                         | Some a \<Rightarrow> Value (att_url a));
            rawContent = (if truthyStr (content_B note) then nullish (content_B note) []
                          else if truthyStr (body_text note) then nullish (body_text note) []
                          else []);
            content = cleanHtml rawContent;
            title = (if truthyStr (title_B note) then nullish (title_B note) [] else NO_TITLE)
        in Some \<lparr> id_R = nullish (id_B note) [],
                  title_R = title,
                  content_R = content,
                  tags_R = tagNames,
                  createdAt = created_at note,
                  updatedAt = updated_at note,
                  sourceUrl = sourceUrl,
                  noteType = Value (nullish (note_type note) (S ''unknown'')),
                  entryType = entry_type note,
                  origin = source note,
                  originalContent = Undefined \<rparr>)"

text \<open>
  \<open>resolveFilename\<close>. The third argument is typed \<open>string | null | undefined\<close> but comes
  from the metadata cache, so it is any value; \<open>!==\<close> against the string \<open>bijiId\<close> holds
  for every value but that very string.
\<close>

definition resolveFilename :: "jsstring \<Rightarrow> jsstring \<Rightarrow> jsval \<Rightarrow> jsstring" where
  "resolveFilename title bijiId existingBijiId =
     (let base = sanitizeFilename (if title = [] then NO_TITLE else title)
      in if existingBijiId \<noteq> JUndefined \<and> existingBijiId \<noteq> JString bijiId
         then base @ S ''-'' @ take 6 bijiId
         else base)"

section \<open>api.ts\<close>

text \<open>
  What a promise rejects with. \<open>requestUrl\<close> rejects with an error object whose
  \<open>status\<close> is the HTTP status (absent on a transport failure) and whose headers may
  hold \<open>retry-after\<close>; \<open>RequestFailure st ra\<close> keeps \<open>err?.status\<close> and
  \<open>err?.headers?.["retry-after"]\<close>. \<open>AuthFatalError\<close> carries its message and cause.
  Every value of this type is an instance of \<open>Error\<close>, so that
  \<open>err instanceof Error ? err : undefined\<close> is \<open>err\<close>.
\<close>

datatype error =
    RequestFailure "int option" "jsstring option"
  | Error jsstring
  | TypeError
  | AuthFatalError jsstring "error option"

fun statusOf :: "error \<Rightarrow> int option" where
  "statusOf (RequestFailure st ra) = st"
| "statusOf _ = None"

fun retryAfterOf :: "error \<Rightarrow> jsstring option" where
  "retryAfterOf (RequestFailure st ra) = ra"
| "retryAfterOf _ = None"

fun isAuthFatalError :: "error \<Rightarrow> bool" where
  "isAuthFatalError (AuthFatalError m c) = True"
| "isAuthFatalError _ = False"

record RequestUrlParam =
  url :: jsstring
  http_method :: "jsstring option"
  headers :: "(jsstring \<times> jsstring) list"
  body :: "jsstring option"

record Response =
  status :: int
  json :: jsval

record BijiSyncSettings =
  refreshToken :: jsstring
  targetFolder :: jsstring
  lastSyncId :: "jsstring option"
  lastSyncTime :: "int option"
  autoSyncEnabled :: bool
  autoSyncInterval :: int

text \<open>
  Everything the program does to the outside, in the order it does it: a call of
  \<open>requestUrl\<close>, a wait on \<open>setTimeout\<close> with its delay, a call of
  \<open>next()\<close> on the page iterable, a \<open>Notice\<close> with its message, a \<open>console.error\<close>,
  \<open>vault.createFolder(path)\<close>, \<open>vault.create(path, data)\<close>, \<open>saveData(settings)\<close>
  and \<open>window.clearInterval(id)\<close>.
\<close>

datatype event =
    RequestUrl RequestUrlParam
  | SetTimeout idouble
  | Next
  | Notice jsstring
  | ConsoleError
  | CreateFolder jsstring
  | Create jsstring jsstring
  | SaveData BijiSyncSettings
  | ClearInterval int

datatype abstractFile = TFile jsstring | TFolder jsstring

text \<open>
  The environment: the answers of the host application, of the network and of the
  platform. \<open>requestUrl_result k p\<close> is the outcome of the \<open>k\<close>-th call of
  \<open>requestUrl\<close>, made with parameters \<open>p\<close>. \<open>abortTick = Some t\<close> says that
  \<open>abort()\<close> is called during the \<open>t\<close>-th suspension, so that \<open>signal.aborted\<close> holds
  from then on: the program runs on one thread, and the signal can only change while
  it is suspended in an \<open>await\<close>. \<open>now c\<close> is \<open>Date.now()\<close> when the clock shows
  \<open>c\<close>. The vault is a state of type \<open>'v\<close> with the lookups and the two creating
  operations of the host; \<open>getFileCache\<close> takes the path of the file and gives the
  cached metadata, or \<open>null\<close>. \<open>saveData\<close> says whether saving rejects.
  \<open>cleanHtml\<close> and \<open>buildMarkdown\<close> are the pure text functions of markdown.ts.
\<close>

record 'v env =
  requestUrl_result :: "nat \<Rightarrow> RequestUrlParam \<Rightarrow> error + Response"
  abortTick :: "nat option"
  now :: "nat \<Rightarrow> int"
  encodeURIComponent :: "jsstring \<Rightarrow> error + jsstring"
  JSON_stringify :: "jsval \<Rightarrow> jsstring"
  JSON_parse :: "jsstring \<Rightarrow> error + jsval"
  atob :: "jsstring \<Rightarrow> error + jsstring"
  ToString :: "jsval \<Rightarrow> jsstring"
  normalizePath :: "jsstring \<Rightarrow> jsstring"
  getAbstractFileByPath :: "'v \<Rightarrow> jsstring \<Rightarrow> abstractFile option"
  getFileCache :: "'v \<Rightarrow> jsstring \<Rightarrow> jsval"
  vault_create :: "'v \<Rightarrow> jsstring \<Rightarrow> jsstring \<Rightarrow> error + 'v"
  vault_createFolder :: "'v \<Rightarrow> jsstring \<Rightarrow> error + 'v"
  saveData :: "BijiSyncSettings \<Rightarrow> error option"
  cleanHtml :: "jsstring \<Rightarrow> jsstring"
  buildMarkdown :: "RawNote \<Rightarrow> jsstring"

text \<open>
  The mutable state: the plugin object (settings and private fields), the vault, the
  \<open>jwt\<close> variable that \<open>syncBiji\<close> shares with its refresh callback, the number of
  suspensions so far and the effects so far.
\<close>

record 'v world =
  clock :: nat
  trace :: "event list"
  vault :: 'v
  settings :: BijiSyncSettings
  jwt :: jsstring
  syncing :: bool
  syncAbortController :: "unit option"
  autoSyncIntervalId :: "int option"
  consecutiveAuthFailures :: nat

definition tick :: "'v world \<Rightarrow> 'v world" where
  "tick w = w\<lparr>clock := Suc (clock w)\<rparr>"

definition emit :: "event \<Rightarrow> 'v world \<Rightarrow> 'v world" where
  "emit e w = w\<lparr>trace := trace w @ [e]\<rparr>"

fun isRequestUrl :: "event \<Rightarrow> bool" where
  "isRequestUrl (RequestUrl p) = True"
| "isRequestUrl _ = False"

text \<open>\<open>await requestUrl(p)\<close>.\<close>

definition requestUrl :: "'v env \<Rightarrow> RequestUrlParam \<Rightarrow> 'v world \<Rightarrow> (error + Response) \<times> 'v world" where
  "requestUrl h p w =
     (requestUrl_result h (length (filter isRequestUrl (trace w))) p, tick (emit (RequestUrl p) w))"

text \<open>\<open>await new Promise((r) => setTimeout(r, delay))\<close>.\<close>

definition setTimeout :: "idouble \<Rightarrow> 'v world \<Rightarrow> 'v world" where
  "setTimeout delay w = tick (emit (SetTimeout delay) w)"

definition API_BASE :: jsstring where
  "API_BASE = S ''https://get-notes.luojilab.com/voicenotes/web''"

definition DETAIL_DELAY :: int where
  "DETAIL_DELAY = 200"

definition MAX_RETRIES :: nat where
  "MAX_RETRIES = 3"

definition BACKOFF_BASE :: int where
  "BACKOFF_BASE = 1000"

type_synonym 'v JwtRefreshCallback = "'v world \<Rightarrow> (error + jsstring) \<times> 'v world"

definition apiHeaders :: "jsstring \<Rightarrow> (jsstring \<times> jsstring) list" where
  "apiHeaders j =
     [(S ''Authorization'', S ''Bearer '' @ j),
      (S ''X-OAuth-Version'', S ''1''),
      (S ''Content-Type'', S ''application/json''),
      (S ''User-Agent'',
       S ''Mozilla/5.0 (Macintosh; Intel Mac OS X 10_15_7) AppleWebKit/537.36'')]"

text \<open>
  \<open>parseInt(s, 10)\<close>: leading white space, an optional sign, then the longest run of
  decimal digits; without a digit the result is \<open>NaN\<close>, otherwise the double nearest to
  the integer that the digits write (the language lets an engine drop the digits after
  the twentieth; the rounding here is that of V8, which keeps them).
\<close>

definition isDigit :: "jschar \<Rightarrow> bool" where
  "isDigit c = (0x30 \<le> c \<and> c \<le> 0x39)"

definition digitsValue :: "jsstring \<Rightarrow> int" where
  "digitsValue ds = foldl (\<lambda>a c. 10 * a + (uint c - 48)) 0 ds"

definition parseInt :: "jsstring \<Rightarrow> idouble" where
  "parseInt s =
     (let t = dropWhile isWhiteSpace s;
          neg = (t \<noteq> [] \<and> hd t = 0x2D);
          u = (if t \<noteq> [] \<and> (hd t = 0x2D \<or> hd t = 0x2B) then tl t else t);
          ds = takeWhile isDigit u
      in if ds = [] then NotNumber
         else roundToDouble (if neg then - digitsValue ds else digitsValue ds))"

text \<open>
  The delay before the next attempt:
  \<open>let delay = BACKOFF_BASE * Math.pow(2, attempt)\<close>, a power of two times 1000
  rounded to a double, and for a 429 whose \<open>retry-after\<close> header is a non-empty string
  \<open>delay = Math.max(parseInt(retryAfter, 10) * 1000, delay)\<close>.
\<close>

definition backoffDelay :: "nat \<Rightarrow> error \<Rightarrow> idouble" where
  "backoffDelay attempt err =
     (let delay = roundToDouble (BACKOFF_BASE * 2 ^ attempt)
      in if statusOf err = Some 429
         then (case retryAfterOf err of
                 Some retryAfter \<Rightarrow>
                   if retryAfter \<noteq> []
                   then Math_max (timesInt (parseInt retryAfter) 1000) delay
                   else delay
               | None \<Rightarrow> delay)
         else delay)"

text \<open>
  The handler \<open>catch (refreshErr)\<close> of the 401/403 branch. It encloses the refresh call
  and the retried request with its own handler, so it receives whatever either throws.
\<close>

definition catchRefreshErr :: "error \<Rightarrow> error" where
  "catchRefreshErr refreshErr =
     (if isAuthFatalError refreshErr then refreshErr
      else AuthFatalError (S ''JWT refresh failed'') (Some refreshErr))"

text \<open>The handler \<open>catch (retryErr)\<close> of the retried request: what it throws.\<close>

definition catchRetryErr :: "error \<Rightarrow> error" where
  "catchRetryErr retryErr =
     (if statusOf retryErr = Some 401 \<or> statusOf retryErr = Some 403
      then AuthFatalError (S ''Authentication failed after refresh'') (Some retryErr)
      else retryErr)"

text \<open>
  \<open>requestWithRetry\<close>, from the iteration \<open>attempt\<close> of its loop on. Leaving the loop
  without a return resolves to \<open>undefined\<close>, here \<open>Inr None\<close>.
\<close>

function requestWithRetry_from ::
  "'v env \<Rightarrow> nat \<Rightarrow> RequestUrlParam \<Rightarrow> 'v JwtRefreshCallback \<Rightarrow> 'v world
     \<Rightarrow> (error + Response option) \<times> 'v world" where
  "requestWithRetry_from h attempt params refreshJwtCallback w =
     (if \<not> attempt < MAX_RETRIES then (Inr None, w)
      else
        case requestUrl h params w of
          (Inr response, w1) \<Rightarrow> (Inr (Some response), w1)
        | (Inl err, w1) \<Rightarrow>
            if statusOf err = Some 401 \<or> statusOf err = Some 403 then
              (case refreshJwtCallback w1 of
                 (Inl refreshErr, w2) \<Rightarrow> (Inl (catchRefreshErr refreshErr), w2)
               | (Inr newJwt, w2) \<Rightarrow>
                   (case requestUrl h
                           (params\<lparr>headers :=
                              AList.update (S ''Authorization'') (S ''Bearer '' @ newJwt)
                                (headers params)\<rparr>) w2 of
                      (Inr response, w3) \<Rightarrow> (Inr (Some response), w3)
                    | (Inl retryErr, w3) \<Rightarrow>
                        (Inl (catchRefreshErr (catchRetryErr retryErr)), w3)))
            else if (case statusOf err of
                       Some st \<Rightarrow> st \<noteq> 0 \<and> 400 \<le> st \<and> st < 500 \<and> st \<noteq> 429
                     | None \<Rightarrow> False)
            then (Inl err, w1)
            else if attempt = MAX_RETRIES - 1 then (Inl err, w1)
            else requestWithRetry_from h (attempt + 1) params refreshJwtCallback
                   (setTimeout (backoffDelay attempt err) w1))"
  by pat_completeness auto
termination
  by (relation "measure (\<lambda>(h, attempt, params, cb, w). MAX_RETRIES - attempt)") auto

declare requestWithRetry_from.simps [simp del]

definition requestWithRetry ::
  "'v env \<Rightarrow> RequestUrlParam \<Rightarrow> 'v JwtRefreshCallback \<Rightarrow> 'v world
     \<Rightarrow> (error + Response option) \<times> 'v world" where
  "requestWithRetry h params refreshJwtCallback w =
     requestWithRetry_from h 0 params refreshJwtCallback w"

text \<open>
  \<open>fetchLinkDetail\<close>. \<open>catchDetail\<close> is its handler; everything from
  \<open>encodeURIComponent\<close> to the reading of \<open>response.json\<close> is inside the \<open>try\<close>.
\<close>

definition catchDetail :: "error \<Rightarrow> 'v world \<Rightarrow> (error + jsval) \<times> 'v world" where
  "catchDetail err w =
     (if isAuthFatalError err then (Inl err, w) else (Inr JNull, emit ConsoleError w))"

definition fetchLinkDetail ::
  "'v env \<Rightarrow> jsstring \<Rightarrow> jsstring \<Rightarrow> 'v JwtRefreshCallback \<Rightarrow> 'v world
     \<Rightarrow> (error + jsval) \<times> 'v world" where
  "fetchLinkDetail h j noteId refreshJwt w =
     (case encodeURIComponent h noteId of
        Inl err \<Rightarrow> catchDetail err w
      | Inr enc \<Rightarrow>
          (case requestWithRetry h
                  \<lparr>url = API_BASE @ S ''/notes/'' @ enc @ S ''/links/detail'',
                   http_method = None, headers = apiHeaders j, body = None\<rparr>
                  refreshJwt w of
             (Inl err, w1) \<Rightarrow> catchDetail err w1
           | (Inr None, w1) \<Rightarrow> catchDetail TypeError w1
           | (Inr (Some response), w1) \<Rightarrow>
               (let c = optProp (json response) (S ''c'')
                in if truthy (optProp c (S ''has_content'')) \<and> truthy (optProp c (S ''content''))
                   then (Inr (optProp c (S ''content'')), w1)
                   else (Inr JNull, w1))))"

section \<open>auth.ts\<close>

definition REFRESH_URL :: jsstring where
  "REFRESH_URL = S ''https://notes-api.biji.com/account/v2/web/user/auth/refresh''"

fun splitOn :: "jschar \<Rightarrow> jsstring \<Rightarrow> jsstring list" where
  "splitOn d [] = [] # []"
| "splitOn d (c # cs) =
     (if c = d then [] # splitOn d cs
      else (case splitOn d cs of
              seg # segs \<Rightarrow> (c # seg) # segs
            | [] \<Rightarrow> [c] # []))"

text \<open>
  \<open>decodeJwt\<close>; \<open>None\<close> is \<open>null\<close>. Every statement of the source is inside one
  \<open>try\<close> whose handler returns \<open>null\<close>: \<open>atob\<close> and \<open>JSON.parse\<close> may throw, and so
  does \<open>payload.exp\<close> when the payload is \<open>null\<close>.
\<close>

definition decodeJwt :: "'v env \<Rightarrow> jsstring \<Rightarrow> jsval option" where
  "decodeJwt h token =
     (let segments = splitOn 0x2E token
      in if length segments \<noteq> 3 then None
         else
           let base64 = map (\<lambda>c. if c = 0x5F then 0x2F else c)
                          (map (\<lambda>c. if c = 0x2D then 0x2B else c) (segments ! 1));
               padLength = (4 - length base64 mod 4) mod 4
           in case atob h (base64 @ replicate padLength 0x3D) of
                Inl e \<Rightarrow> None
              | Inr jsonString \<Rightarrow>
                  (case JSON_parse h jsonString of
                     Inl e \<Rightarrow> None
                   | Inr payload \<Rightarrow>
                       (case payload of
                          JUndefined \<Rightarrow> None
                        | JNull \<Rightarrow> None
                        | _ \<Rightarrow>
                            (case optProp payload (S ''exp'') of
                               JNumber n \<Rightarrow> Some payload
                             | _ \<Rightarrow> None))))"

text \<open>
  \<open>refreshJwt\<close>. The token it resolves to is only ever spliced into the template
  \<open>Bearer ${jwt}\<close>, so the conversion to a string that the template does is done here, at
  the return.
\<close>

definition refreshJwt :: "'v env \<Rightarrow> jsstring \<Rightarrow> 'v world \<Rightarrow> (error + jsstring) \<times> 'v world" where
  "refreshJwt h token w =
     (case requestUrl h
             \<lparr>url = REFRESH_URL, http_method = Some (S ''POST''),
              headers = [(S ''Content-Type'', S ''application/json'')],
              body = Some (JSON_stringify h (JObject [(S ''refresh_token'', JString token)]))\<rparr>
             w of
        (Inl err, w1) \<Rightarrow> (Inl err, w1)
      | (Inr response, w1) \<Rightarrow>
          (let c = optProp (json response) (S ''c'')
           in if \<not> truthy (optProp c (S ''success''))
              then (Inl (Error (S ''Refresh token invalid or expired'')), w1)
              else (case optProp c (S ''token'') of
                      JUndefined \<Rightarrow> (Inl TypeError, w1)
                    | JNull \<Rightarrow> (Inl TypeError, w1)
                    | t \<Rightarrow> (Inr (ToString h (optProp t (S ''token''))), w1))))"

definition validateRefreshToken :: "jsstring \<Rightarrow> jsstring option" where
  "validateRefreshToken token =
     (if token = [] then Some (S ''Please configure refresh token in settings'') else None)"

section \<open>sync.ts\<close>

record Options =
  silent :: "bool option"

text \<open>\<open>options?.silent ?? false\<close>, which is also the truth value of \<open>options?.silent\<close>.\<close>

definition silentOf :: "Options option \<Rightarrow> bool" where
  "silentOf options =
     (case options of
        Some opt \<Rightarrow> (case silent opt of Some b \<Rightarrow> b | None \<Rightarrow> False)
      | None \<Rightarrow> False)"

text \<open>\<open>signal.aborted\<close>.\<close>

definition aborted :: "'v env \<Rightarrow> 'v world \<Rightarrow> bool" where
  "aborted h w = (case abortTick h of Some t \<Rightarrow> t \<le> clock w | None \<Rightarrow> False)"

text \<open>Decimal digits of a counter, for the notices.\<close>

fun showNat :: "nat \<Rightarrow> jsstring" where
  "showNat n = (if n < 10 then [of_nat (48 + n)] else showNat (n div 10) @ [of_nat (48 + n mod 10)])"

declare showNat.simps [simp del]

text \<open>The local variables of \<open>syncBiji\<close> that change from note to note.\<close>

record locals =
  syncCount :: nat
  skipCount :: nat
  errorCount :: nat
  newestNoteId :: "jsstring option"
  shouldStop :: bool
  isFirstPage :: bool

definition refreshJwtCallback :: "'v env \<Rightarrow> 'v JwtRefreshCallback" where
  "refreshJwtCallback h w =
     (case refreshJwt h (refreshToken (settings w)) w of
        (Inl err, w1) \<Rightarrow> (Inl err, w1)
      | (Inr j, w1) \<Rightarrow> (Inr j, w1\<lparr>jwt := j\<rparr>))"

text \<open>\<open>plugin.app.metadataCache.getFileCache(existingFile)?.frontmatter?.biji_id\<close>.\<close>

definition existingBijiId :: "'v env \<Rightarrow> 'v world \<Rightarrow> jsstring \<Rightarrow> jsval" where
  "existingBijiId h w file =
     optProp (optProp (getFileCache h (vault w) file) (S ''frontmatter'')) (S ''biji_id'')"

fun toJsval :: "jsstring nullable \<Rightarrow> jsval" where
  "toJsval Undefined = JUndefined"
| "toJsval Null = JNull"
| "toJsval (Value s) = JString s"

text \<open>
  Step 6e/6f: the detail of a link note. A truthy detail that is not a string has no
  \<open>replace\<close> method, and \<open>cleanHtml\<close> throws a \<open>TypeError\<close> on it.
\<close>

definition attachLinkDetail ::
  "'v env \<Rightarrow> BijiNote \<Rightarrow> RawNote \<Rightarrow> 'v world \<Rightarrow> (error + RawNote) \<times> 'v world" where
  "attachLinkDetail h note rawNote w =
     (case fetchLinkDetail h (jwt w) (nullish (id_B note) []) (refreshJwtCallback h) w of
        (Inl err, w1) \<Rightarrow> (Inl err, w1)
      | (Inr linkContent, w1) \<Rightarrow>
          if truthy linkContent
          then (case linkContent of
                  JString s \<Rightarrow>
                    (Inr (rawNote\<lparr>originalContent := Value (cleanHtml h s)\<rparr>),
                     setTimeout (Whole DETAIL_DELAY) w1)
                | _ \<Rightarrow> (Inl TypeError, w1))
          else (Inr rawNote, setTimeout (Whole DETAIL_DELAY) w1))"

text \<open>\<open>await plugin.app.vault.create(path, data)\<close>.\<close>

definition vaultCreate :: "'v env \<Rightarrow> jsstring \<Rightarrow> jsstring \<Rightarrow> 'v world \<Rightarrow> (error + bool) \<times> 'v world" where
  "vaultCreate h path data w =
     (case vault_create h (vault w) path data of
        Inl err \<Rightarrow> (Inl err, tick (emit (Create path data) w))
      | Inr v \<Rightarrow> (Inr True, (tick (emit (Create path data) w))\<lparr>vault := v\<rparr>))"

text \<open>
  The body of the \<open>try\<close> block for one note: \<open>Inr True\<close> when the file was created
  (\<open>syncCount++\<close>), \<open>Inr False\<close> when the note was skipped (\<open>skipCount++\<close>), \<open>Inl err\<close>
  when \<open>err\<close> was thrown to the handler of the block.
\<close>

definition processNote ::
  "'v env \<Rightarrow> jsstring \<Rightarrow> BijiNote \<Rightarrow> 'v world \<Rightarrow> (error + bool) \<times> 'v world" where
  "processNote h folder note w =
     (case bijiNoteToRawNote (cleanHtml h) note of
        None \<Rightarrow> (Inr False, w)
      | Some rawNote \<Rightarrow>
          (let baseName = resolveFilename (title_R rawNote) (id_R rawNote) JUndefined;
               targetPath = normalizePath h (folder @ S ''/'' @ baseName @ S ''.md'');
               existingFile = getAbstractFileByPath h (vault w) targetPath
           in if (case existingFile of
                    Some (TFile f) \<Rightarrow> existingBijiId h w f = toJsval (id_B note)
                  | _ \<Rightarrow> False)
              then (Inr False, w)
              else
                (case (if noteType rawNote = Value (S ''link'')
                       then attachLinkDetail h note rawNote w
                       else (Inr rawNote, w)) of
                   (Inl err, w1) \<Rightarrow> (Inl err, w1)
                 | (Inr rawNote1, w1) \<Rightarrow>
                     (let markdown = buildMarkdown h rawNote1;
                          finalName =
                            (case existingFile of
                               Some (TFile f) \<Rightarrow>
                                 resolveFilename (title_R rawNote1) (id_R rawNote1)
                                   (existingBijiId h w1 f)
                             | _ \<Rightarrow> baseName);
                          finalPath = normalizePath h (folder @ S ''/'' @ finalName @ S ''.md'')
                      in vaultCreate h finalPath markdown w1))))"

text \<open>\<open>lastSyncId && note.id === lastSyncId\<close>.\<close>

definition reachedLastSync :: "jsstring option \<Rightarrow> BijiNote \<Rightarrow> bool" where
  "reachedLastSync lastId note =
     (case lastId of Some l \<Rightarrow> l \<noteq> [] \<and> id_B note = Value l | None \<Rightarrow> False)"

text \<open>\<open>if (isFirstPage && newestNoteId === null && note.id) newestNoteId = note.id\<close>.\<close>

definition capture :: "BijiNote \<Rightarrow> locals \<Rightarrow> locals" where
  "capture note st =
     (if isFirstPage st \<and> newestNoteId st = None \<and> truthyStr (id_B note)
      then st\<lparr>newestNoteId := Some (nullish (id_B note) [])\<rparr>
      else st)"

text \<open>The loop over the notes of one page, with the handler of the \<open>try\<close> block.\<close>

fun noteLoop ::
  "'v env \<Rightarrow> jsstring \<Rightarrow> jsstring option \<Rightarrow> BijiNote list \<Rightarrow> locals \<Rightarrow> 'v world
     \<Rightarrow> (error + locals) \<times> 'v world" where
  "noteLoop h folder lastId [] st w = (Inr st, w)"
| "noteLoop h folder lastId (note # notes) st w =
     (if aborted h w then (Inr st, w)
      else if reachedLastSync lastId note then (Inr ((capture note st)\<lparr>shouldStop := True\<rparr>), w)
      else
        (case processNote h folder note w of
           (Inr False, w1) \<Rightarrow>
             noteLoop h folder lastId notes
               ((capture note st)\<lparr>skipCount := skipCount (capture note st) + 1\<rparr>) w1
         | (Inr True, w1) \<Rightarrow>
             noteLoop h folder lastId notes
               ((capture note st)\<lparr>syncCount := syncCount (capture note st) + 1\<rparr>) w1
         | (Inl err, w1) \<Rightarrow>
             if isAuthFatalError err then (Inl err, w1)
             else noteLoop h folder lastId notes
                    ((capture note st)\<lparr>errorCount := errorCount (capture note st) + 1\<rparr>)
                    (emit ConsoleError w1)))"

text \<open>
  The loop \<open>for await (const { notes } of fetchNotes(...))\<close>, over the results of the
  \<open>next()\<close> calls still to come.
\<close>

fun pageLoop ::
  "'v env \<Rightarrow> bool \<Rightarrow> jsstring \<Rightarrow> jsstring option \<Rightarrow> (error + BijiNote list) list \<Rightarrow> locals
     \<Rightarrow> 'v world \<Rightarrow> (error + locals) \<times> 'v world" where
  "pageLoop h quiet folder lastId [] st w = (Inr st, tick (emit Next w))"
| "pageLoop h quiet folder lastId (Inl err # rest) st w = (Inl err, tick (emit Next w))"
| "pageLoop h quiet folder lastId (Inr notes # rest) st w =
     (if aborted h (tick (emit Next w)) then (Inr st, tick (emit Next w))
      else
        (case noteLoop h folder lastId notes st (tick (emit Next w)) of
           (Inl err, w1) \<Rightarrow> (Inl err, w1)
         | (Inr st1, w1) \<Rightarrow>
             if shouldStop st1 \<or> aborted h w1 then (Inr (st1\<lparr>isFirstPage := False\<rparr>), w1)
             else pageLoop h quiet folder lastId rest (st1\<lparr>isFirstPage := False\<rparr>)
                    (if \<not> quiet
                     then emit (Notice (S ''Synced '' @ showNat (syncCount st1) @ S '' notes...'')) w1
                     else w1)))"

text \<open>Step 4: \<open>await plugin.app.vault.createFolder(...)\<close> unless the folder is there.\<close>

definition ensureFolder :: "'v env \<Rightarrow> jsstring \<Rightarrow> 'v world \<Rightarrow> error option \<times> 'v world" where
  "ensureFolder h folder w =
     (case getAbstractFileByPath h (vault w) (normalizePath h folder) of
        Some (TFolder f) \<Rightarrow> (None, w)
      | _ \<Rightarrow>
          (case vault_createFolder h (vault w) (normalizePath h folder) of
             Inl err \<Rightarrow> (Some err, tick (emit (CreateFolder (normalizePath h folder)) w))
           | Inr v \<Rightarrow> (None, (tick (emit (CreateFolder (normalizePath h folder)) w))\<lparr>vault := v\<rparr>)))"

text \<open>Steps 7 and 8.\<close>

definition finalize :: "'v env \<Rightarrow> bool \<Rightarrow> locals \<Rightarrow> 'v world \<Rightarrow> error option \<times> 'v world" where
  "finalize h quiet st w =
     (let s1 = (case newestNoteId st of
                  Some n \<Rightarrow> if n \<noteq> [] then (settings w)\<lparr>lastSyncId := Some n\<rparr> else settings w
                | None \<Rightarrow> settings w);
          s2 = s1\<lparr>lastSyncTime := Some (now h (clock w))\<rparr>;
          w1 = tick (emit (SaveData s2) (w\<lparr>settings := s2\<rparr>))
      in case saveData h s2 of
           Some err \<Rightarrow> (Some err, w1)
         | None \<Rightarrow>
             (None,
              if quiet then w1
              else if aborted h w1
              then emit (Notice (S ''Sync cancelled: '' @ showNat (syncCount st) @ S '' new, ''
                                   @ showNat (skipCount st) @ S '' skipped'')) w1
              else emit (Notice (S ''Sync complete: '' @ showNat (syncCount st) @ S '' new, ''
                                   @ showNat (skipCount st) @ S '' skipped, ''
                                   @ showNat (errorCount st) @ S '' errors'')) w1))"

definition initialLocals :: locals where
  "initialLocals =
     \<lparr>syncCount = 0, skipCount = 0, errorCount = 0, newestNoteId = None,
      shouldStop = False, isFirstPage = True\<rparr>"

text \<open>
  \<open>syncBiji\<close>: \<open>None\<close> when the promise resolves, \<open>Some err\<close> when it rejects.
  \<open>pages\<close> lists what the successive \<open>next()\<close> calls on the iterable
  \<open>fetchNotes(jwt, refreshJwtCallback, signal)\<close> give during this run: a page
  (\<open>Inr\<close>) or a rejection (\<open>Inl\<close>), and \<open>done\<close> at the end of the list.
\<close>

definition syncBiji ::
  "'v env \<Rightarrow> (error + BijiNote list) list \<Rightarrow> Options option \<Rightarrow> 'v world
     \<Rightarrow> error option \<times> 'v world" where
  "syncBiji h pages options w =
     (let folder = targetFolder (settings w);
          lastId = lastSyncId (settings w);
          quiet = silentOf options
      in case validateRefreshToken (refreshToken (settings w)) of
           Some tokenError \<Rightarrow> (None, if \<not> quiet then emit (Notice tokenError) w else w)
         | None \<Rightarrow>
             (case refreshJwt h (refreshToken (settings w)) w of
                (Inl err, w1) \<Rightarrow> (Some (AuthFatalError (S ''Failed to obtain JWT'') (Some err)), w1)
              | (Inr j, w1) \<Rightarrow>
                  (case ensureFolder h folder (w1\<lparr>jwt := j\<rparr>) of
                     (Some err, w2) \<Rightarrow> (Some err, w2)
                   | (None, w2) \<Rightarrow>
                       (case pageLoop h quiet folder lastId pages initialLocals w2 of
                          (Inl err, w3) \<Rightarrow> (Some err, w3)
                        | (Inr st, w3) \<Rightarrow> finalize h quiet st w3))))"

section \<open>main.ts\<close>

definition MAX_AUTH_FAILURES :: nat where
  "MAX_AUTH_FAILURES = 3"

definition stopAutoSync :: "'v world \<Rightarrow> 'v world" where
  "stopAutoSync w =
     (case autoSyncIntervalId w of
        Some i \<Rightarrow> (emit (ClearInterval i) w)\<lparr>autoSyncIntervalId := None\<rparr>
      | None \<Rightarrow> w)"

text \<open>
  \<open>triggerSync\<close> in three parts. \<open>triggerSync_enter\<close> is what runs before the first
  suspension, up to the call of \<open>syncBiji\<close>: it answers whether a run was started.
  \<open>triggerSync_leave\<close> is the \<open>catch\<close> and \<open>finally\<close> part, run when \<open>syncBiji\<close>
  has settled with \<open>result\<close>.
\<close>

definition triggerSync_enter :: "Options option \<Rightarrow> 'v world \<Rightarrow> bool \<times> 'v world" where
  "triggerSync_enter options w =
     (if syncing w
      then (False, if \<not> silentOf options then emit (Notice (S ''Sync already in progress'')) w else w)
      else (True,
            if \<not> silentOf options
            then emit (Notice (S ''Syncing Get'' @ [0x7B14, 0x8BB0] @ S ''...''))
                   (w\<lparr>syncing := True, syncAbortController := Some ()\<rparr>)
            else w\<lparr>syncing := True, syncAbortController := Some ()\<rparr>))"

definition triggerSync_leave :: "Options option \<Rightarrow> error option \<Rightarrow> 'v world \<Rightarrow> 'v world" where
  "triggerSync_leave options result w =
     (let w1 =
        (case result of
           None \<Rightarrow> w\<lparr>consecutiveAuthFailures := 0\<rparr>
         | Some err \<Rightarrow>
             if isAuthFatalError err then
               (if silentOf options then
                  (let w2 = (emit ConsoleError w)\<lparr>consecutiveAuthFailures :=
                               consecutiveAuthFailures w + 1\<rparr>
                   in if consecutiveAuthFailures w2 \<ge> MAX_AUTH_FAILURES
                      then emit (Notice (S ''Auto-sync stopped: authentication failed ''
                                   @ showNat MAX_AUTH_FAILURES
                                   @ S '' times, please update refresh token''))
                             (stopAutoSync w2)
                      else w2)
                else emit (Notice (S ''Authentication failed, please update refresh token in settings''))
                       (emit ConsoleError w))
             else if \<not> silentOf options
             then emit (Notice (S ''Sync failed, check console for details'')) (emit ConsoleError w)
             else emit ConsoleError w)
      in w1\<lparr>syncing := False, syncAbortController := None\<rparr>)"

definition triggerSync ::
  "'v env \<Rightarrow> (error + BijiNote list) list \<Rightarrow> Options option \<Rightarrow> 'v world \<Rightarrow> 'v world" where
  "triggerSync h pages options w =
     (case triggerSync_enter options w of
        (False, w1) \<Rightarrow> w1
      | (True, w1) \<Rightarrow>
          (case syncBiji h pages
                  (Some \<lparr>silent = (case options of Some opt \<Rightarrow> silent opt | None \<Rightarrow> None)\<rparr>) w1 of
             (result, w2) \<Rightarrow> triggerSync_leave options result w2))"

text \<open>
  Triggers arrive while a run is suspended. A schedule is a sequence of actions on the
  plugin: a trigger, an effect of a run in progress, or the settling of the run started
  with the given options. Beside the plugin the state lists the options of the runs
  that were started and have not settled.
\<close>

datatype action = Trigger "Options option" | Progress event | Settle "error option"

fun act :: "action \<Rightarrow> 'v world \<times> Options option list \<Rightarrow> 'v world \<times> Options option list" where
  "act (Trigger options) (w, running) =
     (case triggerSync_enter options w of
        (True, w1) \<Rightarrow> (w1, running @ [options])
      | (False, w1) \<Rightarrow> (w1, running))"
| "act (Progress e) (w, running) = (if running = [] then (w, running) else (emit e w, running))"
| "act (Settle result) (w, running) =
     (case running of
        [] \<Rightarrow> (w, running)
      | options # others \<Rightarrow> (triggerSync_leave options result w, others))"

definition schedule :: "action list \<Rightarrow> 'v world \<times> Options option list \<Rightarrow> 'v world \<times> Options option list" where
  "schedule acts s = fold act acts s"

section \<open>Notions used in the statements\<close>

text \<open>
  The failures that the specification calls transient: status 429, any 5xx, or no status
  at all.
\<close>

definition transientFailure :: "error \<Rightarrow> bool" where
  "transientFailure err =
     (case statusOf err of None \<Rightarrow> True | Some st \<Rightarrow> st = 429 \<or> (500 \<le> st \<and> st < 600))"

text \<open>
  The delays handed to \<open>setTimeout\<close> in a trace, and the sum of those that are
  numbers (a timer set with \<open>NaN\<close> fires at once).
\<close>

definition timeouts :: "event list \<Rightarrow> idouble list" where
  "timeouts tr = concat (map (\<lambda>e. case e of SetTimeout d \<Rightarrow> [d] | _ \<Rightarrow> []) tr)"


text \<open>The request that \<open>fetchLinkDetail\<close> issues for the encoded identifier \<open>enc\<close>.\<close>

definition detailRequest :: "jsstring \<Rightarrow> jsstring \<Rightarrow> RequestUrlParam" where
  "detailRequest enc j =
     \<lparr>url = API_BASE @ S ''/notes/'' @ enc @ S ''/links/detail'', http_method = None,
      headers = apiHeaders j, body = None\<rparr>"

text \<open>A note that carries an identifier.\<close>

definition hasId :: "BijiNote \<Rightarrow> bool" where
  "hasId note = truthyStr (id_B note)"

text \<open>Two states of the locals that agree on everything but the skip counter.\<close>

definition sameButSkip :: "locals \<Rightarrow> locals \<Rightarrow> bool" where
  "sameButSkip st st' =
     (syncCount st = syncCount st' \<and> errorCount st = errorCount st'
      \<and> newestNoteId st = newestNoteId st' \<and> shouldStop st = shouldStop st'
      \<and> isFirstPage st = isFirstPage st')"

text \<open>
  What a step of the run leaves alone: the settings, and the list of \<open>saveData\<close> calls.
\<close>

fun isSaveData :: "event \<Rightarrow> bool" where
  "isSaveData (SaveData s) = True"
| "isSaveData _ = False"

fun isNotice :: "event \<Rightarrow> bool" where
  "isNotice (Notice m) = True"
| "isNotice _ = False"

definition frame :: "'v world \<Rightarrow> 'v world \<Rightarrow> bool" where
  "frame w w' =
     (settings w' = settings w
      \<and> filter isSaveData (trace w') = filter isSaveData (trace w)
      \<and> syncing w' = syncing w)"

text \<open>The identifier of the first note of a page that has one.\<close>

definition firstId :: "BijiNote list \<Rightarrow> jsstring option" where
  "firstId ns = (case filter hasId ns of n # rest \<Rightarrow> Some (nullish (id_B n) []) | [] \<Rightarrow> None)"

text \<open>The first identifier of the first page, when the first result is a page.\<close>

definition firstIdentified :: "(error + BijiNote list) list \<Rightarrow> jsstring option" where
  "firstIdentified pages = (case pages of Inr ns # rest \<Rightarrow> firstId ns | _ \<Rightarrow> None)"

text \<open>
  The value of the clock when the first page arrives: one suspension for the token
  refresh, one for \<open>createFolder\<close> when the folder is missing, one for the page.
\<close>

definition firstPageArrival :: "'v env \<Rightarrow> 'v world \<Rightarrow> nat" where
  "firstPageArrival h w =
     clock w + 2
     + (case getAbstractFileByPath h (vault w) (normalizePath h (targetFolder (settings w))) of
          Some (TFolder f) \<Rightarrow> 0
        | _ \<Rightarrow> 1)"

text \<open>\<open>abort()\<close> was called by the time the clock shows \<open>c\<close>.\<close>

definition cancelledBy :: "'v env \<Rightarrow> nat \<Rightarrow> bool" where
  "cancelledBy h c = (case abortTick h of Some t \<Rightarrow> t \<le> c | None \<Rightarrow> False)"

text \<open>The string that \<open>decodeJwt\<close> hands to \<open>atob\<close> for a middle segment.\<close>

definition base64Padded :: "jsstring \<Rightarrow> jsstring" where
  "base64Padded seg =
     (let base64 = map (\<lambda>c. if c = 0x5F then 0x2F else c) (map (\<lambda>c. if c = 0x2D then 0x2B else c) seg)
      in base64 @ replicate ((4 - length base64 mod 4) mod 4) 0x3D)"

text \<open>
  The plugin is idle, or one run is in progress: the flag \<open>syncing\<close> is set exactly
  when a run was started and has not settled, and there is at most one such run.
\<close>

definition oneRun :: "'v world \<times> Options option list \<Rightarrow> bool" where
  "oneRun s = (case s of (w, running) \<Rightarrow> (syncing w \<longleftrightarrow> running \<noteq> []) \<and> length running \<le> 1)"

section \<open>Example data\<close>

text \<open>
  A note, a vault kept as an association list from paths to entries (\<open>None\<close> a folder,
  \<open>Some c\<close> a file whose cached metadata is \<open>c\<close>) in which creating an existing path
  fails, and a server that answers every request with a successful token refresh.
\<close>

definition exampleNote :: BijiNote where
  "exampleNote =
     \<lparr>id_B = Value (S ''xyz789''), note_id = S ''xyz789'', title_B = Value (S ''My Note''),
      content_B = Value (S ''Hello''), body_text = Value (S ''Hello''),
      source = Value (S ''app''), note_type = Value (S ''plain_text''),
      entry_type = Value (S ''manual''), tags_B = Value [], attachments = Value [],
      created_at = S ''2024-01-01T00:00:00Z'', updated_at = S ''2024-01-01T00:00:00Z'',
      edit_time = S ''2024-01-01T00:00:00Z''\<rparr>"

type_synonym exVault = "(jsstring \<times> jsval option) list"

definition exEnv :: "exVault env" where
  "exEnv =
     \<lparr>requestUrl_result = (\<lambda>k p. Inr \<lparr>status = 200, json =
          JObject [(S ''c'', JObject [(S ''success'', JBool True),
                     (S ''token'', JObject [(S ''token'', JString (S ''jwt-1''))])])]\<rparr>),
      abortTick = None,
      now = (\<lambda>t. 1700000000000 + int t),
      encodeURIComponent = Inr,
      JSON_stringify = (\<lambda>v. []),
      JSON_parse = (\<lambda>s. Inl (Error (S ''SyntaxError''))),
      atob = (\<lambda>s. Inl (Error (S ''InvalidCharacterError''))),
      ToString = (\<lambda>v. case v of JString s \<Rightarrow> s | _ \<Rightarrow> S ''undefined''),
      normalizePath = (\<lambda>p. p),
      getAbstractFileByPath =
        (\<lambda>v p. case map_of v p of
                  None \<Rightarrow> None
                | Some None \<Rightarrow> Some (TFolder p)
                | Some (Some c) \<Rightarrow> Some (TFile p)),
      getFileCache = (\<lambda>v p. case map_of v p of Some (Some c) \<Rightarrow> c | _ \<Rightarrow> JNull),
      vault_create =
        (\<lambda>v p d. if map_of v p \<noteq> None then Inl (Error (S ''File already exists.''))
                 else Inr (v @ [(p, Some JNull)])),
      vault_createFolder =
        (\<lambda>v p. if map_of v p \<noteq> None then Inl (Error (S ''Folder already exists.''))
               else Inr (v @ [(p, None)])),
      saveData = (\<lambda>s. None),
      cleanHtml = (\<lambda>s. s),
      buildMarkdown = content_R\<rparr>"

definition exWorld :: "exVault world" where
  "exWorld =
     \<lparr>clock = 0, trace = [], vault = [(S ''Get'', None)],
      settings = \<lparr>refreshToken = S ''rt'', targetFolder = S ''Get'', lastSyncId = None,
                  lastSyncTime = None, autoSyncEnabled = False, autoSyncInterval = 30\<rparr>,
      jwt = [], syncing = False, syncAbortController = None, autoSyncIntervalId = None,
      consecutiveAuthFailures = 0\<rparr>"

definition exampleRaw :: RawNote where
  "exampleRaw =
     \<lparr>id_R = S ''xyz789'', title_R = S ''My Note'', content_R = S ''Hello'', tags_R = [],
      createdAt = S ''2024-01-01T00:00:00Z'', updatedAt = S ''2024-01-01T00:00:00Z'',
      sourceUrl = Undefined, noteType = Value (S ''plain_text''),
      entryType = Value (S ''manual''), origin = Value (S ''app''),
      originalContent = Undefined\<rparr>"

text \<open>The same note with its three label fields null or missing.\<close>

definition sparseNote :: BijiNote where
  "sparseNote = exampleNote\<lparr>note_type := Null, entry_type := Undefined, source := Null\<rparr>"

text \<open>
  A vault that already holds \<open>Get/My Note.md\<close>, a file whose front matter has a title
  and no \<open>biji_id\<close>.
\<close>

definition untaggedCache :: jsval where
  "untaggedCache = JObject [(S ''frontmatter'', JObject [(S ''title'', JString (S ''My Note''))])]"

definition conflictWorld :: "exVault world" where
  "conflictWorld =
     exWorld\<lparr>vault := [(S ''Get'', None), (S ''Get/My Note.md'', Some untaggedCache)]\<rparr>"

text \<open>
  A request, a server that always answers 500, a server that answers 401 and then 500,
  and a refresh callback that always succeeds.
\<close>

definition exampleParams :: RequestUrlParam where
  "exampleParams = \<lparr>url = S ''https://example.com/api'', http_method = None,
      headers = [(S ''Authorization'', S ''Bearer old-jwt'')], body = None\<rparr>"

definition failing500Env :: "exVault env" where
  "failing500Env = exEnv\<lparr>requestUrl_result := (\<lambda>k p. Inl (RequestFailure (Some 500) None))\<rparr>"



definition retry500Env :: "exVault env" where
  "retry500Env = exEnv\<lparr>requestUrl_result :=
      (\<lambda>k p. if k = 0 then Inl (RequestFailure (Some 401) None)
             else Inl (RequestFailure (Some 500) None))\<rparr>"

definition dummyRefresh :: "exVault JwtRefreshCallback" where
  "dummyRefresh w = (Inr (S ''new-jwt''), w)"

text \<open>The example environment with \<open>abort()\<close> called at a given suspension.\<close>

definition cancelEnv :: "nat option \<Rightarrow> exVault env" where
  "cancelEnv a = exEnv\<lparr>abortTick := a\<rparr>"

definition noIdNote :: BijiNote where
  "noIdNote = exampleNote\<lparr>id_B := Value []\<rparr>"

text \<open>A newer and an older note, and a plugin whose stored cursor is the example note.\<close>

definition newerNote :: BijiNote where
  "newerNote = exampleNote\<lparr>id_B := Value (S ''abc123''), title_B := Value (S ''Newer'')\<rparr>"

definition olderNote :: BijiNote where
  "olderNote = exampleNote\<lparr>id_B := Value (S ''old000''), title_B := Value (S ''Older'')\<rparr>"

definition cursorWorld :: "exVault world" where
  "cursorWorld = exWorld\<lparr>settings := (settings exWorld)\<lparr>lastSyncId := Some (S ''xyz789'')\<rparr>\<rparr>"

definition exRefreshRequest :: RequestUrlParam where
  "exRefreshRequest =
     \<lparr>url = REFRESH_URL, http_method = Some (S ''POST''),
      headers = [(S ''Content-Type'', S ''application/json'')], body = Some []\<rparr>"

text \<open>
  A platform \<open>atob\<close>: the forgiving base64 decoding of the HTML standard. White space
  is dropped, up to two trailing \<open>=\<close> are dropped when the length is a multiple of four,
  a remaining length of \<open>1 mod 4\<close> or a character outside the alphabet fails, and the
  bits left over at the end are discarded.
\<close>

definition base64Value :: "jschar \<Rightarrow> nat option" where
  "base64Value c =
     (if 0x41 \<le> c \<and> c \<le> 0x5A then Some (unat c - 0x41)
      else if 0x61 \<le> c \<and> c \<le> 0x7A then Some (unat c - 0x61 + 26)
      else if 0x30 \<le> c \<and> c \<le> 0x39 then Some (unat c - 0x30 + 52)
      else if c = 0x2B then Some 62
      else if c = 0x2F then Some 63
      else None)"

fun decodeSextets :: "nat list \<Rightarrow> jsstring" where
  "decodeSextets (a # b # c # d # rest) =
     of_nat (a * 4 + b div 16) # of_nat ((b mod 16) * 16 + c div 4) # of_nat ((c mod 4) * 64 + d)
       # decodeSextets rest"
| "decodeSextets [a, b, c] = [of_nat (a * 4 + b div 16), of_nat ((b mod 16) * 16 + c div 4)]"
| "decodeSextets [a, b] = [of_nat (a * 4 + b div 16)]"
| "decodeSextets _ = []"

definition atobForgiving :: "jsstring \<Rightarrow> error + jsstring" where
  "atobForgiving s =
     (let t = filter (\<lambda>c. c \<notin> {0x09, 0x0A, 0x0C, 0x0D, 0x20}) s;
          u = (if length t mod 4 = 0
               then (if t \<noteq> [] \<and> last t = 0x3D
                     then (if butlast t \<noteq> [] \<and> last (butlast t) = 0x3D then butlast (butlast t)
                           else butlast t)
                     else t)
               else t)
      in if length u mod 4 = 1 \<or> (\<exists>c \<in> set u. base64Value c = None)
         then Inl (Error (S ''InvalidCharacterError''))
         else Inr (decodeSextets (map (\<lambda>c. the (base64Value c)) u)))"

text \<open>
  An environment for tokens: the platform \<open>atob\<close>, and a \<open>JSON.parse\<close> that knows the
  two texts used below.
\<close>

definition jwtEnv :: "exVault env" where
  "jwtEnv = exEnv
     \<lparr>JSON_parse :=
        (\<lambda>s. if s = S ''{'' @ [0x22] @ S ''exp'' @ [0x22] @ S '':9999999999,'' @ [0x22] @ S ''uid''
                      @ [0x22] @ S '':1}''
              then Inr (JObject [(S ''exp'', JNumber (Num 9999999999)),
                                 (S ''uid'', JNumber (Num 1))])
              else if s = S ''{'' @ [0x22] @ S ''uid'' @ [0x22] @ S '':1}''
              then Inr (JObject [(S ''uid'', JNumber (Num 1))])
              else Inl (Error (S ''SyntaxError''))),
      atob := atobForgiving\<rparr>"

text \<open>The example plugin after a user-triggered run has started.\<close>

definition busyWorld :: "exVault world" where
  "busyWorld =
     emit (Notice (S ''Syncing Get'' @ [0x7B14, 0x8BB0] @ S ''...''))
       (exWorld\<lparr>syncing := True, syncAbortController := Some ()\<rparr>)"

section \<open>Evaluating the examples\<close>

lemma sanitize_MyNote: "sanitizeFilename (S ''My Note'') = S ''My Note''"
  by (simp add: sanitizeFilename_def S_def UNSAFE_CHARS_def trim_def isWhiteSpace_def Let_def)

lemma ex_raw: "bijiNoteToRawNote (\<lambda>s. s) exampleNote = Some exampleRaw"
  by (simp add: bijiNoteToRawNote_def exampleNote_def exampleRaw_def Let_def S_def)

lemma ex_sel:
  "cleanHtml exEnv = (\<lambda>s. s)" "normalizePath exEnv = (\<lambda>p. p)"
  "buildMarkdown exEnv = content_R"
  by (simp_all add: exEnv_def)

lemma ex_fields:
  "title_R exampleRaw = S ''My Note''" "id_R exampleRaw = S ''xyz789''"
  "content_R exampleRaw = S ''Hello''" "noteType exampleRaw = Value (S ''plain_text'')"
  "id_B exampleNote = Value (S ''xyz789'')"
  by (simp_all add: exampleRaw_def exampleNote_def)

lemma ex_path: "S ''Get'' @ S ''/'' @ S ''My Note'' @ S ''.md'' = S ''Get/My Note.md''"
  by (simp add: S_def)

lemma ne_link: "S ''plain_text'' \<noteq> S ''link''"
  by (simp add: S_def)

lemma cw_vault:
  "vault conflictWorld = [(S ''Get'', None), (S ''Get/My Note.md'', Some untaggedCache)]"
  by (simp add: conflictWorld_def)

lemma cw_get:
  "getAbstractFileByPath exEnv [(S ''Get'', None), (S ''Get/My Note.md'', Some untaggedCache)]
     (S ''Get/My Note.md'') = Some (TFile (S ''Get/My Note.md''))"
  by (simp add: exEnv_def S_def)

lemma cw_cache: "existingBijiId exEnv conflictWorld (S ''Get/My Note.md'') = JUndefined"
  by (simp add: existingBijiId_def cw_vault exEnv_def untaggedCache_def S_def)

lemma cw_create:
  "vault_create exEnv [(S ''Get'', None), (S ''Get/My Note.md'', Some untaggedCache)]
     (S ''Get/My Note.md'') d = Inl (Error (S ''File already exists.''))"
  by (simp add: exEnv_def S_def)

section \<open>Filename resolution\<close>

lemma resolveFilename_plain:
  "existing = JUndefined \<or> existing = JString bijiId \<Longrightarrow>
     resolveFilename title bijiId existing = sanitizeFilename (if title = [] then NO_TITLE else title)"
  by (auto simp: resolveFilename_def)

lemma resolveFilename_suffix:
  "existing \<noteq> JUndefined \<Longrightarrow> existing \<noteq> JString bijiId \<Longrightarrow>
     resolveFilename title bijiId existing
       = sanitizeFilename (if title = [] then NO_TITLE else title) @ S ''-'' @ take 6 bijiId"
  by (simp add: resolveFilename_def)

lemma resolveFilename_spec_example:
  "resolveFilename (S ''My Note'') (S ''xyz789'') (JString (S ''abc'')) = S ''My Note-xyz789''"
  "resolveFilename (S ''My Note'') (S ''xyz789'') JNull = S ''My Note-xyz789''"
  "resolveFilename (S ''My Note'') (S ''xyz789'') (JString (S ''xyz789'')) = S ''My Note''"
  "resolveFilename (S ''My Note'') (S ''xyz789'') JUndefined = S ''My Note''"
  by (simp_all add: resolveFilename_def sanitize_MyNote) (simp_all add: S_def)

text \<open>
  C3. The orchestrator reads the stored identifier of the file at the candidate path as
  \<open>getFileCache(existingFile)?.frontmatter?.biji_id\<close>. For a file with no stored
  identifier field that expression is \<open>undefined\<close>, which \<open>resolveFilename\<close> takes for
  "no existing file": the note \<open>xyz789\<close> titled \<open>My Note\<close> is then written to the
  occupied path \<open>Get/My Note.md\<close>, without the suffix \<open>-xyz789\<close>, and the creation
  fails.
\<close>

theorem C3_absent_identifier_not_suffixed:
  "processNote exEnv (S ''Get'') exampleNote conflictWorld
   = (Inl (Error (S ''File already exists.'')),
      tick (emit (Create (S ''Get/My Note.md'') (S ''Hello'')) conflictWorld))"
  by (simp add: processNote_def ex_sel ex_raw Let_def resolveFilename_spec_example ex_fields
        ex_path cw_vault cw_get cw_cache ne_link vaultCreate_def cw_create)

section \<open>Note normalizer\<close>

text \<open>
  C8 (amended). Whenever the normalizer returns a record, its note-kind label is the
  source field, or \<open>"unknown"\<close> when that field is missing or null; the entry-kind and
  origin labels are the source fields as they are, missing or null included.
\<close>

theorem C8_labels:
  "bijiNoteToRawNote f note = Some r \<Longrightarrow>
     noteType r = Value (nullish (note_type note) (S ''unknown''))
     \<and> entryType r = entry_type note \<and> origin r = source note"
  by (auto simp: bijiNoteToRawNote_def Let_def split: if_splits)

lemma sparse_raw:
  "bijiNoteToRawNote (\<lambda>s. s) sparseNote
     = Some (exampleRaw\<lparr>noteType := Value (S ''unknown''), entryType := Undefined, origin := Null\<rparr>)"
  by (simp add: bijiNoteToRawNote_def sparseNote_def exampleNote_def exampleRaw_def Let_def S_def)

theorem C8_labels_witness:
  "bijiNoteToRawNote (\<lambda>s. s) sparseNote
     = Some (exampleRaw\<lparr>noteType := Value (S ''unknown''), entryType := Undefined, origin := Null\<rparr>)
   \<and> noteType (exampleRaw\<lparr>noteType := Value (S ''unknown''), entryType := Undefined, origin := Null\<rparr>)
       = Value (S ''unknown'')
   \<and> entry_type sparseNote = Undefined \<and> source sparseNote = Null"
  using C8_labels [OF sparse_raw] sparse_raw by (simp add: sparseNote_def)

text \<open>
  C8 as stated fails: a note without \<open>entry_type\<close> is normalized to a record whose
  entry-kind label is undefined.
\<close>

theorem C8_counterexample:
  "map_option entryType (bijiNoteToRawNote id (exampleNote\<lparr>entry_type := Undefined\<rparr>))
     = Some Undefined"
  by (simp add: bijiNoteToRawNote_def exampleNote_def Let_def S_def)

section \<open>Resilient request executor\<close>

lemma world_simps [simp]:
  "trace (tick w) = trace w" "clock (tick w) = Suc (clock w)"
  "vault (tick w) = vault w" "settings (tick w) = settings w" "jwt (tick w) = jwt w"
  "syncing (tick w) = syncing w"
  "trace (emit e w) = trace w @ [e]" "clock (emit e w) = clock w"
  "vault (emit e w) = vault w" "settings (emit e w) = settings w" "jwt (emit e w) = jwt w"
  "syncing (emit e w) = syncing w"
  "trace (setTimeout d w) = trace w @ [SetTimeout d]" "clock (setTimeout d w) = Suc (clock w)"
  "vault (setTimeout d w) = vault w" "settings (setTimeout d w) = settings w"
  "jwt (setTimeout d w) = jwt w" "syncing (setTimeout d w) = syncing w"
  by (simp_all add: tick_def emit_def setTimeout_def)


lemma rwr_auth:
  "attempt < MAX_RETRIES \<Longrightarrow> requestUrl h params w = (Inl err, w1) \<Longrightarrow>
   statusOf err = Some 401 \<or> statusOf err = Some 403 \<Longrightarrow>
     requestWithRetry_from h attempt params cb w =
       (case cb w1 of
          (Inl refreshErr, w2) \<Rightarrow> (Inl (catchRefreshErr refreshErr), w2)
        | (Inr newJwt, w2) \<Rightarrow>
            (case requestUrl h
                    (params\<lparr>headers := AList.update (S ''Authorization'') (S ''Bearer '' @ newJwt)
                                        (headers params)\<rparr>) w2 of
               (Inr response, w3) \<Rightarrow> (Inr (Some response), w3)
             | (Inl retryErr, w3) \<Rightarrow> (Inl (catchRefreshErr (catchRetryErr retryErr)), w3)))"
  by (subst requestWithRetry_from.simps) simp

lemma transient_not_auth:
  "transientFailure err \<Longrightarrow> \<not> (statusOf err = Some 401 \<or> statusOf err = Some 403)"
  by (auto simp: transientFailure_def)

lemma transient_not_permanent:
  "transientFailure err \<Longrightarrow>
     \<not> (case statusOf err of
           Some st \<Rightarrow> st \<noteq> 0 \<and> 400 \<le> st \<and> st < 500 \<and> st \<noteq> 429
         | None \<Rightarrow> False)"
  by (auto simp: transientFailure_def split: option.splits)

lemma rwr_retry:
  "Suc attempt < MAX_RETRIES \<Longrightarrow> requestUrl h params w = (Inl err, w1) \<Longrightarrow>
   transientFailure err \<Longrightarrow>
     requestWithRetry_from h attempt params cb w =
       requestWithRetry_from h (Suc attempt) params cb (setTimeout (backoffDelay attempt err) w1)"
  apply (subst requestWithRetry_from.simps)
  using transient_not_auth[of err] transient_not_permanent[of err]
  apply (simp add: MAX_RETRIES_def)
  done

lemma rwr_exhausted:
  "Suc attempt = MAX_RETRIES \<Longrightarrow> requestUrl h params w = (Inl err, w1) \<Longrightarrow>
   transientFailure err \<Longrightarrow>
     requestWithRetry_from h attempt params cb w = (Inl err, w1)"
  apply (subst requestWithRetry_from.simps)
  using transient_not_auth[of err] transient_not_permanent[of err]
  apply (auto simp add: MAX_RETRIES_def)
  done

lemma rwr_permanent:
  "attempt < MAX_RETRIES \<Longrightarrow> requestUrl h params w = (Inl err, w1) \<Longrightarrow>
   statusOf err = Some st \<Longrightarrow> 400 \<le> st \<Longrightarrow> st < 500 \<Longrightarrow> st \<notin> {401, 403, 429} \<Longrightarrow>
     requestWithRetry_from h attempt params cb w = (Inl err, w1)"
  by (subst requestWithRetry_from.simps) auto

lemma roundToDouble_exact: "\<bar>m\<bar> < 2 ^ 53 \<Longrightarrow> roundToDouble m = Whole m"
  by (auto simp: roundToDouble_def Let_def abs_if)





lemma showNat_digit: "n < 10 \<Longrightarrow> showNat n = [of_nat (48 + n)]"
  by (subst showNat.simps) simp















lemma ex_trace: "trace exWorld = []"
  by (simp add: exWorld_def)

lemma requestUrl_eval:
  "requestUrl h params w =
     (requestUrl_result h (length (filter isRequestUrl (trace w))) params,
      tick (emit (RequestUrl params) w))"
  by (simp add: requestUrl_def)

lemma retry500_first:
  "requestUrl retry500Env exampleParams exWorld
     = (Inl (RequestFailure (Some 401) None), tick (emit (RequestUrl exampleParams) exWorld))"
  by (simp add: requestUrl_def retry500Env_def ex_trace)

lemma retry500_second:
  "requestUrl retry500Env p (tick (emit (RequestUrl exampleParams) exWorld))
     = (Inl (RequestFailure (Some 500) None),
        tick (emit (RequestUrl p) (tick (emit (RequestUrl exampleParams) exWorld))))"
  by (simp add: requestUrl_def retry500Env_def ex_trace)

lemma example_update:
  "exampleParams\<lparr>headers := AList.update (S ''Authorization'') (S ''Bearer '' @ S ''new-jwt'')
       (headers exampleParams)\<rparr>
   = exampleParams\<lparr>headers := [(S ''Authorization'', S ''Bearer new-jwt'')]\<rparr>"
  by (simp add: exampleParams_def S_def)

text \<open>
  C2. In the 401/403 branch the handler of the retried request rethrows a failure with
  any other status as it is, but that \<open>throw\<close> sits inside the \<open>try\<close> whose handler
  wraps everything that is not an \<open>AuthFatalError\<close>. First answer 401, refresh
  succeeds, retry answers 500: the caller gets \<open>AuthFatalError("JWT refresh failed")\<close>
  with the 500 failure as cause, not the 500 failure. The refresh callback was called
  once and the retry carried the new credential.
\<close>

theorem C2_retry_failure_wrapped:
  "requestWithRetry retry500Env exampleParams dummyRefresh exWorld =
     (Inl (AuthFatalError (S ''JWT refresh failed'') (Some (RequestFailure (Some 500) None))),
      tick (emit (RequestUrl (exampleParams\<lparr>headers := [(S ''Authorization'', S ''Bearer new-jwt'')]\<rparr>))
        (tick (emit (RequestUrl exampleParams) exWorld))))"
  unfolding requestWithRetry_def
  by (subst rwr_auth [OF _ retry500_first])
     (simp_all add: MAX_RETRIES_def dummyRefresh_def example_update retry500_second
        catchRefreshErr_def catchRetryErr_def)

lemma three_failures:
  assumes e0: "requestUrl_result h (length (filter isRequestUrl (trace w))) params = Inl e0"
    and e1: "requestUrl_result h (length (filter isRequestUrl (trace w)) + 1) params = Inl e1"
    and e2: "requestUrl_result h (length (filter isRequestUrl (trace w)) + 2) params = Inl e2"
    and t: "transientFailure e0" "transientFailure e1" "transientFailure e2"
  shows "requestWithRetry h params cb w =
           (Inl e2,
            tick (emit (RequestUrl params) (setTimeout (backoffDelay 1 e1)
              (tick (emit (RequestUrl params) (setTimeout (backoffDelay 0 e0)
                (tick (emit (RequestUrl params) w))))))))"
proof -
  let ?w1 = "tick (emit (RequestUrl params) w)"
  let ?w2 = "setTimeout (backoffDelay 0 e0) ?w1"
  let ?w3 = "tick (emit (RequestUrl params) ?w2)"
  let ?w4 = "setTimeout (backoffDelay 1 e1) ?w3"
  let ?w5 = "tick (emit (RequestUrl params) ?w4)"
  have r0: "requestUrl h params w = (Inl e0, ?w1)"
    by (simp add: requestUrl_def e0)
  have r1: "requestUrl h params ?w2 = (Inl e1, ?w3)"
    using e1 by (simp add: requestUrl_def)
  have r2: "requestUrl h params ?w4 = (Inl e2, ?w5)"
    using e2 by (simp add: requestUrl_def)
  have "requestWithRetry h params cb w = requestWithRetry_from h (Suc 0) params cb ?w2"
    unfolding requestWithRetry_def by (rule rwr_retry [OF _ r0 t(1)]) (simp add: MAX_RETRIES_def)
  also have "\<dots> = requestWithRetry_from h (Suc (Suc 0)) params cb ?w4"
    using rwr_retry [of "Suc 0" h params ?w2 e1 ?w3 cb] r1 t(2) by (simp add: MAX_RETRIES_def)
  also have "\<dots> = (Inl e2, ?w5)"
    by (rule rwr_exhausted [OF _ r2 t(3)]) (simp add: MAX_RETRIES_def)
  finally show ?thesis .
qed

lemma timeouts_simps [simp]:
  "timeouts [] = []"
  "timeouts (tr @ tr') = timeouts tr @ timeouts tr'"
  "timeouts (SetTimeout d # tr) = d # timeouts tr"
  "timeouts (RequestUrl p # tr) = timeouts tr"
  by (simp_all add: timeouts_def)









section \<open>Detail fetcher\<close>

text \<open>
  C6. When \<open>requestWithRetry\<close> fails with an \<open>AuthFatalError\<close>, so does
  \<open>fetchLinkDetail\<close>; when it fails with anything else, \<open>fetchLinkDetail\<close> logs and
  returns \<open>null\<close>; when the response reports no content, it returns \<open>null\<close>. It never
  fails with anything but an \<open>AuthFatalError\<close>.
\<close>

theorem C6_fetchLinkDetail:
  assumes "encodeURIComponent h noteId = Inr enc"
    and "requestWithRetry h (detailRequest enc j) cb w = (r, w1)"
  shows "(\<forall>err. r = Inl err \<and> isAuthFatalError err \<longrightarrow>
            fetchLinkDetail h j noteId cb w = (Inl err, w1))
       \<and> (\<forall>err. r = Inl err \<and> \<not> isAuthFatalError err \<longrightarrow>
            fetchLinkDetail h j noteId cb w = (Inr JNull, emit ConsoleError w1))
       \<and> (\<forall>response. r = Inr (Some response)
              \<and> \<not> truthy (optProp (optProp (json response) (S ''c'')) (S ''has_content'')) \<longrightarrow>
            fetchLinkDetail h j noteId cb w = (Inr JNull, w1))
       \<and> (\<forall>err. fst (fetchLinkDetail h j noteId cb w) = Inl err \<longrightarrow> isAuthFatalError err)"
  using assms
  by (auto simp: fetchLinkDetail_def detailRequest_def catchDetail_def Let_def
           split: sum.splits option.splits if_splits)

lemma failing500_detail:
  "requestWithRetry failing500Env (detailRequest (S ''xyz789'') (S ''jwt-1'')) dummyRefresh exWorld
     = (Inl (RequestFailure (Some 500) None),
        tick (emit (RequestUrl (detailRequest (S ''xyz789'') (S ''jwt-1'')))
          (setTimeout (Whole 2000)
            (tick (emit (RequestUrl (detailRequest (S ''xyz789'') (S ''jwt-1'')))
              (setTimeout (Whole 1000)
                (tick (emit (RequestUrl (detailRequest (S ''xyz789'') (S ''jwt-1''))) exWorld))))))))"
proof -
  have t: "transientFailure (RequestFailure (Some 500) None)"
    by (simp add: transientFailure_def)
  have d: "backoffDelay 0 (RequestFailure (Some 500) None) = Whole 1000"
    "backoffDelay (Suc 0) (RequestFailure (Some 500) None) = Whole 2000"
    by (simp_all add: backoffDelay_def BACKOFF_BASE_def Let_def roundToDouble_exact)
  show ?thesis
    by (subst three_failures [where ?e0.0 = "RequestFailure (Some 500) None"
          and ?e1.0 = "RequestFailure (Some 500) None" and ?e2.0 = "RequestFailure (Some 500) None"])
       (simp_all add: failing500Env_def t d)
qed

lemma ex_encode: "encodeURIComponent failing500Env (S ''xyz789'') = Inr (S ''xyz789'')"
  by (simp add: failing500Env_def exEnv_def)

theorem C6_fetchLinkDetail_witness:
  "fst (fetchLinkDetail failing500Env (S ''jwt-1'') (S ''xyz789'') dummyRefresh exWorld) = Inr JNull"
  using C6_fetchLinkDetail [OF ex_encode failing500_detail] by simp

section \<open>Sync orchestrator: notes without identifier\<close>

lemma bijiNoteToRawNote_noId: "\<not> hasId note \<Longrightarrow> bijiNoteToRawNote f note = None"
  by (simp add: bijiNoteToRawNote_def hasId_def)

lemma processNote_noId: "\<not> hasId note \<Longrightarrow> processNote h folder note w = (Inr False, w)"
  by (simp add: processNote_def bijiNoteToRawNote_noId)

lemma capture_noId: "\<not> hasId note \<Longrightarrow> capture note st = st"
  by (simp add: capture_def hasId_def)

lemma reachedLastSync_hasId: "reachedLastSync lastId note \<Longrightarrow> hasId note"
  by (auto simp: reachedLastSync_def hasId_def split: option.splits)

lemma noteLoop_aborted: "aborted h w \<Longrightarrow> noteLoop h folder lastId ns st w = (Inr st, w)"
  by (cases ns) simp_all

lemma capture_sameButSkip: "sameButSkip st st' \<Longrightarrow> sameButSkip (capture n st) (capture n st')"
  by (simp add: capture_def sameButSkip_def)

text \<open>
  The loop never reads the skip counter, and a note without identifier only counts it
  up: leaving such notes out changes neither the other locals nor the world.
\<close>

lemma noteLoop_filter_hasId:
  "sameButSkip st st' \<Longrightarrow>
     rel_sum (=) sameButSkip (fst (noteLoop h folder lastId ns st w))
       (fst (noteLoop h folder lastId (filter hasId ns) st' w))
     \<and> snd (noteLoop h folder lastId ns st w)
       = snd (noteLoop h folder lastId (filter hasId ns) st' w)"
proof (induction ns arbitrary: st st' w)
  case Nil
  then show ?case by simp
next
  case (Cons n ns)
  note rel = capture_sameButSkip [OF Cons.prems, of n]
  show ?case
  proof (cases "aborted h w")
    case True
    then show ?thesis using Cons.prems by (simp add: noteLoop_aborted)
  next
    case na: False
    show ?thesis
    proof (cases "hasId n")
      case False
      have "noteLoop h folder lastId (n # ns) st w
              = noteLoop h folder lastId ns (st\<lparr>skipCount := skipCount st + 1\<rparr>) w"
        using False na reachedLastSync_hasId [of lastId n]
        by (auto simp: processNote_noId capture_noId)
      moreover have "sameButSkip (st\<lparr>skipCount := skipCount st + 1\<rparr>) st'"
        using Cons.prems by (simp add: sameButSkip_def)
      ultimately show ?thesis
        using False Cons.IH [of "st\<lparr>skipCount := skipCount st + 1\<rparr>" st' w] by simp
    next
      case True
      show ?thesis
      proof (cases "reachedLastSync lastId n")
        case True
        then show ?thesis using \<open>hasId n\<close> na rel by (simp add: sameButSkip_def)
      next
        case nr: False
        obtain r w1 where p: "processNote h folder n w = (r, w1)"
          by (cases "processNote h folder n w")
        show ?thesis
        proof (cases r)
          case (Inl err)
          have "sameButSkip ((capture n st)\<lparr>errorCount := errorCount (capture n st) + 1\<rparr>)
                  ((capture n st')\<lparr>errorCount := errorCount (capture n st') + 1\<rparr>)"
            using rel by (simp add: sameButSkip_def)
          from Cons.IH [OF this, of "emit ConsoleError w1"] show ?thesis
            using True na nr p Inl by simp
        next
          case (Inr b)
          have s1: "sameButSkip ((capture n st)\<lparr>syncCount := syncCount (capture n st) + 1\<rparr>)
                  ((capture n st')\<lparr>syncCount := syncCount (capture n st') + 1\<rparr>)"
            using rel by (simp add: sameButSkip_def)
          have s2: "sameButSkip ((capture n st)\<lparr>skipCount := skipCount (capture n st) + 1\<rparr>)
                  ((capture n st')\<lparr>skipCount := skipCount (capture n st') + 1\<rparr>)"
            using rel by (simp add: sameButSkip_def)
          show ?thesis
            using True na nr p Inr Cons.IH [OF s1, of w1] Cons.IH [OF s2, of w1]
            by (cases b) simp_all
        qed
      qed
    qed
  qed
qed

lemma sameButSkip_refl: "sameButSkip st st"
  by (simp add: sameButSkip_def)

lemma rel_sum_syncCount:
  "rel_sum (=) sameButSkip r r' \<Longrightarrow> map_sum id syncCount r = map_sum id syncCount r'"
  by (cases r; cases r') (simp_all add: sameButSkip_def)

text \<open>
  A note without identifier, met while the run is not cancelled, adds one to the skip
  counter and leaves everything else as it was.
\<close>

lemma noteLoop_noId_step:
  "\<not> hasId n \<Longrightarrow> \<not> aborted h w \<Longrightarrow>
     noteLoop h folder lastId (n # ns) st w
       = noteLoop h folder lastId ns (st\<lparr>skipCount := skipCount st + 1\<rparr>) w"
  using reachedLastSync_hasId [of lastId n]
  by (auto simp: processNote_noId capture_noId)

text \<open>
  C7. For a note without identifier the normalizer returns no record and the note is
  skipped without any effect; the loop goes on with the rest of the page and the skip
  counter raised by one; the count of synced files after the loop over a page, and the
  world it leaves, are the same with and without such notes in the page.
\<close>

theorem C7_missing_identifier:
  "(\<not> hasId n \<longrightarrow>
      bijiNoteToRawNote (cleanHtml h) n = None \<and> processNote h folder n w = (Inr False, w))
   \<and> (\<not> hasId n \<and> \<not> aborted h w \<longrightarrow>
        noteLoop h folder lastId (n # ns) st w
          = noteLoop h folder lastId ns (st\<lparr>skipCount := skipCount st + 1\<rparr>) w)
   \<and> map_sum id syncCount (fst (noteLoop h folder lastId ns st w))
     = map_sum id syncCount (fst (noteLoop h folder lastId (filter hasId ns) st w))
   \<and> snd (noteLoop h folder lastId ns st w)
     = snd (noteLoop h folder lastId (filter hasId ns) st w)"
proof (intro conjI impI)
  assume "\<not> hasId n"
  then show "bijiNoteToRawNote (cleanHtml h) n = None" "processNote h folder n w = (Inr False, w)"
    by (simp_all add: bijiNoteToRawNote_noId processNote_noId)
next
  assume "\<not> hasId n \<and> \<not> aborted h w"
  then show "noteLoop h folder lastId (n # ns) st w
          = noteLoop h folder lastId ns (st\<lparr>skipCount := skipCount st + 1\<rparr>) w"
    using noteLoop_noId_step [of n h w folder lastId ns st] by blast
next
  note r = noteLoop_filter_hasId [OF sameButSkip_refl, of h folder lastId ns st w]
  show "map_sum id syncCount (fst (noteLoop h folder lastId ns st w))
     = map_sum id syncCount (fst (noteLoop h folder lastId (filter hasId ns) st w))"
    using r by (simp add: rel_sum_syncCount)
  show "snd (noteLoop h folder lastId ns st w)
     = snd (noteLoop h folder lastId (filter hasId ns) st w)"
    using r by simp
qed

section \<open>Sync orchestrator: what the steps leave alone\<close>

lemma frame_refl [simp]: "frame w w"
  by (simp add: frame_def)

lemma frame_trans: "frame w w1 \<Longrightarrow> frame w1 w2 \<Longrightarrow> frame w w2"
  by (simp add: frame_def)

lemma frame_tick [simp]: "frame w (tick w)"
  by (simp add: frame_def)

lemma frame_emit: "\<not> isSaveData e \<Longrightarrow> frame w (emit e w)"
  by (simp add: frame_def)

lemma frame_setTimeout [simp]: "frame w (setTimeout d w)"
  by (simp add: frame_def)

lemma requestUrl_world: "requestUrl h p w = (r, w') \<Longrightarrow> w' = tick (emit (RequestUrl p) w)"
  by (auto simp: requestUrl_def)

lemma frame_requestUrl: "requestUrl h p w = (r, w') \<Longrightarrow> frame w w'"
  by (auto simp: requestUrl_def frame_def)

lemma refreshJwt_world:
  "refreshJwt h token w = (r, w') \<Longrightarrow> \<exists>p. w' = tick (emit (RequestUrl p) w)"
  by (auto simp: refreshJwt_def Let_def requestUrl_def split: sum.splits jsval.splits if_splits)

lemma frame_refreshJwt: "refreshJwt h token w = (r, w') \<Longrightarrow> frame w w'"
  by (auto dest!: refreshJwt_world simp: frame_def)

lemma frame_refreshJwtCallback: "refreshJwtCallback h w = (r, w') \<Longrightarrow> frame w w'"
  by (auto simp: refreshJwtCallback_def frame_def split: prod.splits sum.splits
           dest!: refreshJwt_world)

lemma frame_requestWithRetry_from:
  assumes cb: "\<And>w r w'. cb w = (r, w') \<Longrightarrow> frame w w'"
  shows "requestWithRetry_from h attempt params cb w = (r, w') \<Longrightarrow> frame w w'"
  using cb
proof (induction h attempt params cb w arbitrary: r w' rule: requestWithRetry_from.induct)
  case (1 h attempt params cb w)
  note run = "1.prems"(1) and cbf = "1.prems"(2)
  show ?case
  proof (cases "attempt < MAX_RETRIES")
    case False
    then show ?thesis using run by (subst (asm) requestWithRetry_from.simps) simp
  next
    case True
    obtain r1 w1 where ru: "requestUrl h params w = (r1, w1)"
      by (cases "requestUrl h params w")
    note f1 = frame_requestUrl [OF ru]
    show ?thesis
    proof (cases r1)
      case (Inr response)
      then show ?thesis using run True ru f1
        by (subst (asm) requestWithRetry_from.simps) simp
    next
      case (Inl err)
      show ?thesis
      proof (cases "statusOf err = Some 401 \<or> statusOf err = Some 403")
        case auth: True
        obtain r2 w2 where c: "cb w1 = (r2, w2)" by (cases "cb w1")
        note f2 = frame_trans [OF f1 cbf [OF c]]
        show ?thesis
        proof (cases r2)
          case e: (Inl refreshErr)
          show ?thesis using run True ru Inl auth c e f2
            by (subst (asm) requestWithRetry_from.simps) auto
        next
          case j: (Inr newJwt)
          obtain r3 w3 where ru2: "requestUrl h
              (params\<lparr>headers := AList.update (S ''Authorization'') (S ''Bearer '' @ newJwt)
                 (headers params)\<rparr>) w2 = (r3, w3)"
            by (cases "requestUrl h
              (params\<lparr>headers := AList.update (S ''Authorization'') (S ''Bearer '' @ newJwt)
                 (headers params)\<rparr>) w2")
          note f3 = frame_trans [OF f2 frame_requestUrl [OF ru2]]
          show ?thesis using run True ru Inl auth c j ru2 f3
            by (subst (asm) requestWithRetry_from.simps) (cases r3; auto)
        qed
      next
        case na: False
        show ?thesis
        proof (cases "(case statusOf err of
                         Some st \<Rightarrow> st \<noteq> 0 \<and> 400 \<le> st \<and> st < 500 \<and> st \<noteq> 429
                       | None \<Rightarrow> False) \<or> attempt = MAX_RETRIES - 1")
          case True
          then show ?thesis using run \<open>attempt < MAX_RETRIES\<close> ru Inl na f1
            by (subst (asm) requestWithRetry_from.simps) (auto split: if_splits)
        next
          case False
          have rec: "requestWithRetry_from h (attempt + 1) params cb
                       (setTimeout (backoffDelay attempt err) w1) = (r, w')"
            using run \<open>attempt < MAX_RETRIES\<close> ru Inl na False
            by (subst (asm) requestWithRetry_from.simps) auto
          have "frame (setTimeout (backoffDelay attempt err) w1) w'"
            using "1.IH" [OF _ ru [symmetric, unfolded Inl] _ _ _ _ rec cbf]
              \<open>attempt < MAX_RETRIES\<close> na False
            by auto
          then show ?thesis using f1 by (simp add: frame_def)
        qed
      qed
    qed
  qed
qed

lemma frame_catchDetail: "catchDetail err w = (r, w') \<Longrightarrow> frame w w'"
  by (auto simp: catchDetail_def frame_def split: if_splits)

lemma frame_fetchLinkDetail:
  assumes cb: "\<And>w r w'. cb w = (r, w') \<Longrightarrow> frame w w'"
    and run: "fetchLinkDetail h j noteId cb w = (r, w')"
  shows "frame w w'"
proof (cases "encodeURIComponent h noteId")
  case (Inl err)
  then show ?thesis using run by (simp add: fetchLinkDetail_def frame_catchDetail)
next
  case (Inr enc)
  obtain r1 w1 where rw: "requestWithRetry h
      \<lparr>url = API_BASE @ S ''/notes/'' @ enc @ S ''/links/detail'', http_method = None,
       headers = apiHeaders j, body = None\<rparr> cb w = (r1, w1)"
    by (cases "requestWithRetry h
      \<lparr>url = API_BASE @ S ''/notes/'' @ enc @ S ''/links/detail'', http_method = None,
       headers = apiHeaders j, body = None\<rparr> cb w")
  have f1: "frame w w1"
    using rw cb by (auto simp: requestWithRetry_def intro: frame_requestWithRetry_from)
  have "frame w1 w'"
    using run Inr rw
    by (auto simp: fetchLinkDetail_def Let_def frame_catchDetail
             split: sum.splits option.splits if_splits)
  with f1 show ?thesis by (rule frame_trans)
qed

lemma frame_attachLinkDetail:
  assumes "attachLinkDetail h n rawNote w = (r, w')"
  shows "frame w w'"
proof -
  obtain r1 w1 where fd:
    "fetchLinkDetail h (jwt w) (nullish (id_B n) []) (refreshJwtCallback h) w = (r1, w1)"
    by (cases "fetchLinkDetail h (jwt w) (nullish (id_B n) []) (refreshJwtCallback h) w")
  have f1: "frame w w1"
    by (rule frame_fetchLinkDetail [OF _ fd]) (rule frame_refreshJwtCallback)
  have "frame w1 w'"
    using assms fd
    by (auto simp: attachLinkDetail_def split: sum.splits if_splits jsval.splits)
  with f1 show ?thesis by (rule frame_trans)
qed

lemma frame_vaultCreate: "vaultCreate h path d w = (r, w') \<Longrightarrow> frame w w'"
  by (auto simp: vaultCreate_def frame_def split: sum.splits)

lemma frame_processNote:
  assumes "processNote h folder n w = (r, w')"
  shows "frame w w'"
proof (cases "bijiNoteToRawNote (cleanHtml h) n")
  case None
  then show ?thesis using assms by (simp add: processNote_def)
next
  case (Some rawNote)
  obtain r1 w1 where a: "(if noteType rawNote = Value (S ''link'')
      then attachLinkDetail h n rawNote w else (Inr rawNote, w)) = (r1, w1)"
    by (cases "if noteType rawNote = Value (S ''link'')
      then attachLinkDetail h n rawNote w else (Inr rawNote, w)")
  have f1: "frame w w1"
    using a frame_attachLinkDetail [of h n rawNote w r1 w1] by (auto split: if_splits)
  have "frame w1 w' \<or> w' = w"
    using assms Some a
    by (auto simp: processNote_def Let_def split: if_splits sum.splits dest: frame_vaultCreate)
  with f1 show ?thesis by (auto intro: frame_trans)
qed

lemma frame_noteLoop: "noteLoop h folder lastId ns st w = (r, w') \<Longrightarrow> frame w w'"
proof (induction ns arbitrary: st w)
  case Nil
  then show ?case by simp
next
  case (Cons n ns)
  show ?case
  proof (cases "aborted h w \<or> reachedLastSync lastId n")
    case True
    then show ?thesis using Cons.prems by (auto split: if_splits)
  next
    case False
    obtain r1 w1 where p: "processNote h folder n w = (r1, w1)"
      by (cases "processNote h folder n w")
    note f1 = frame_processNote [OF p]
    have "w' = w1 \<or> (\<exists>st1. noteLoop h folder lastId ns st1 w1 = (r, w'))
          \<or> (\<exists>st1. noteLoop h folder lastId ns st1 (emit ConsoleError w1) = (r, w'))"
      using Cons.prems False p by (cases r1) (auto split: bool.splits if_splits)
    then have "frame w1 w'"
      using Cons.IH frame_emit [of ConsoleError w1] by (fastforce intro: frame_trans)
    with f1 show ?thesis by (rule frame_trans)
  qed
qed

lemma frame_pageLoop: "pageLoop h quiet folder lastId pages st w = (r, w') \<Longrightarrow> frame w w'"
proof (induction pages arbitrary: st w)
  case Nil
  then show ?case by (auto simp: frame_def)
next
  case (Cons p pages)
  show ?case
  proof (cases p)
    case (Inl err)
    then show ?thesis using Cons.prems by (auto simp: frame_def)
  next
    case (Inr ns)
    let ?w0 = "tick (emit Next w)"
    have f0: "frame w ?w0" by (simp add: frame_def)
    obtain r1 w1 where nl: "noteLoop h folder lastId ns st ?w0 = (r1, w1)"
      by (cases "noteLoop h folder lastId ns st ?w0")
    note f1 = frame_trans [OF f0 frame_noteLoop [OF nl]]
    have "w' = ?w0 \<or> w' = w1
          \<or> (\<exists>st1. pageLoop h quiet folder lastId pages st1 w1 = (r, w'))
          \<or> (\<exists>st1 m. pageLoop h quiet folder lastId pages st1 (emit (Notice m) w1) = (r, w'))"
      using Cons.prems Inr nl by (cases r1) (auto split: if_splits)
    then have "frame w w' \<or> frame w1 w'"
      using Cons.IH f0 frame_emit [of "Notice m" w1 for m] by (fastforce intro: frame_trans)
    with f1 show ?thesis by (auto intro: frame_trans)
  qed
qed

lemma frame_ensureFolder: "ensureFolder h folder w = (r, w') \<Longrightarrow> frame w w'"
  by (auto simp: ensureFolder_def frame_def split: option.splits abstractFile.splits sum.splits)

section \<open>Sync orchestrator: the cursor\<close>

text \<open>One iteration of the loop over the notes of a page.\<close>

lemma noteLoop_Cons_cases:
  assumes "noteLoop h folder lastId (n # ns) st w = (r, w')"
  obtains
    (abort) "aborted h w" "r = Inr st" "w' = w"
  | (stop) "\<not> aborted h w" "reachedLastSync lastId n"
      "r = Inr ((capture n st)\<lparr>shouldStop := True\<rparr>)" "w' = w"
  | (fatal) err where "\<not> aborted h w" "\<not> reachedLastSync lastId n"
      "processNote h folder n w = (Inl err, w')" "isAuthFatalError err" "r = Inl err"
  | (continue) st1 w1 where "\<not> aborted h w" "\<not> reachedLastSync lastId n"
      "noteLoop h folder lastId ns st1 w1 = (r, w')"
      "newestNoteId st1 = newestNoteId (capture n st)"
      "isFirstPage st1 = isFirstPage (capture n st)"
      "shouldStop st1 = shouldStop (capture n st)"
      "(\<exists>b. processNote h folder n w = (Inr b, w1))
       \<or> (\<exists>err w0. processNote h folder n w = (Inl err, w0) \<and> w1 = emit ConsoleError w0)"
proof -
  note eq = assms [unfolded noteLoop.simps(2)]
  show ?thesis
  proof (cases "aborted h w")
    case True
    then have "r = Inr st" "w' = w" using eq by simp_all
    with True show ?thesis by (rule abort)
  next
    case na: False
    show ?thesis
    proof (cases "reachedLastSync lastId n")
      case True
      then have "r = Inr ((capture n st)\<lparr>shouldStop := True\<rparr>)" "w' = w"
        using eq na by simp_all
      with na True show ?thesis by (rule stop)
    next
      case nr: False
      obtain r1 w1 where p: "processNote h folder n w = (r1, w1)"
        by (cases "processNote h folder n w")
      show ?thesis
      proof (cases r1)
        case (Inl err)
        show ?thesis
        proof (cases "isAuthFatalError err")
          case True
          then have "r = Inl err" "w' = w1" using eq na nr p Inl by simp_all
          then show ?thesis using fatal [OF na nr _ True] p Inl by simp
        next
          case False
          then have "noteLoop h folder lastId ns
                       ((capture n st)\<lparr>errorCount := errorCount (capture n st) + 1\<rparr>)
                       (emit ConsoleError w1) = (r, w')"
            using eq na nr p Inl by simp
          then show ?thesis
            by (rule continue [OF na nr]) (simp_all add: p Inl)
        qed
      next
        case (Inr b)
        show ?thesis
        proof (cases b)
          case True
          then have "noteLoop h folder lastId ns
                       ((capture n st)\<lparr>syncCount := syncCount (capture n st) + 1\<rparr>) w1 = (r, w')"
            using eq na nr p Inr by simp
          then show ?thesis
            by (rule continue [OF na nr]) (simp_all add: p Inr)
        next
          case False
          then have "noteLoop h folder lastId ns
                       ((capture n st)\<lparr>skipCount := skipCount (capture n st) + 1\<rparr>) w1 = (r, w')"
            using eq na nr p Inr by simp
          then show ?thesis
            by (rule continue [OF na nr]) (simp_all add: p Inr)
        qed
      qed
    qed
  qed
qed

lemma capture_fields:
  "isFirstPage (capture n st) = isFirstPage st" "shouldStop (capture n st) = shouldStop st"
  by (simp_all add: capture_def)

lemma capture_keeps:
  "newestNoteId st \<noteq> None \<or> \<not> isFirstPage st \<Longrightarrow> newestNoteId (capture n st) = newestNoteId st"
  by (auto simp: capture_def)

lemma capture_first:
  "isFirstPage st \<Longrightarrow> newestNoteId st = None \<Longrightarrow>
     newestNoteId (capture n st) = (if hasId n then Some (nullish (id_B n) []) else None)"
  by (simp add: capture_def hasId_def)

lemma noteLoop_isFirstPage:
  "noteLoop h folder lastId ns st w = (Inr st', w') \<Longrightarrow> isFirstPage st' = isFirstPage st"
proof (induction ns arbitrary: st w)
  case Nil
  then show ?case by simp
next
  case (Cons n ns)
  from Cons.prems show ?case
  proof (cases rule: noteLoop_Cons_cases)
    case (continue st1 w1)
    with Cons.IH [OF continue(3)] show ?thesis by (simp add: capture_fields)
  qed (auto simp: capture_fields)
qed

text \<open>Once captured, or after the first page, the candidate is never written again.\<close>

lemma noteLoop_keeps_newest:
  "newestNoteId st \<noteq> None \<or> \<not> isFirstPage st \<Longrightarrow>
   noteLoop h folder lastId ns st w = (Inr st', w') \<Longrightarrow> newestNoteId st' = newestNoteId st"
proof (induction ns arbitrary: st w)
  case Nil
  then show ?case by simp
next
  case (Cons n ns)
  note keep = capture_keeps [OF Cons.prems(1), of n]
  from Cons.prems(2) show ?case
  proof (cases rule: noteLoop_Cons_cases)
    case (continue st1 w1)
    have "newestNoteId st1 \<noteq> None \<or> \<not> isFirstPage st1"
      using continue(4,5) keep Cons.prems(1) by (auto simp: capture_fields)
    from Cons.IH [OF this continue(3)] show ?thesis using continue(4) keep by simp
  qed (auto simp: keep)
qed

lemma firstId_Cons:
  "firstId (n # ns) = (if hasId n then Some (nullish (id_B n) []) else firstId ns)"
  by (simp add: firstId_def)

text \<open>
  On the first page the candidate is the identifier of the first note that has one,
  unless the run was cancelled by the time the page arrived: notes without identifier
  are passed without a suspension.
\<close>

lemma noteLoop_first_capture:
  "isFirstPage st \<Longrightarrow> newestNoteId st = None \<Longrightarrow>
   noteLoop h folder lastId ns st w = (Inr st', w') \<Longrightarrow>
     newestNoteId st' = (if aborted h w then None else firstId ns)"
proof (induction ns arbitrary: st w)
  case Nil
  then show ?case by (simp add: firstId_def)
next
  case (Cons n ns)
  note cap = capture_first [OF Cons.prems(1,2), of n]
  from Cons.prems(3) show ?case
  proof (cases rule: noteLoop_Cons_cases)
    case abort
    then show ?thesis using Cons.prems(2) by simp
  next
    case stop
    then show ?thesis
      using cap reachedLastSync_hasId [of lastId n] by (simp add: firstId_Cons)
  next
    case (fatal err)
    then show ?thesis by simp
  next
    case (continue st1 w1)
    show ?thesis
    proof (cases "hasId n")
      case True
      have "newestNoteId st1 \<noteq> None \<or> \<not> isFirstPage st1"
        using continue(4) cap True by simp
      from noteLoop_keeps_newest [OF this continue(3)] show ?thesis
        using continue(1,4) cap True by (simp add: firstId_Cons)
    next
      case False
      have w1: "w1 = w"
        using continue(7) processNote_noId [OF False, of h folder w] by auto
      have "isFirstPage st1" "newestNoteId st1 = None"
        using continue(4,5) cap False Cons.prems(1) by (simp_all add: capture_fields)
      from Cons.IH [OF this continue(3)] show ?thesis
        using False w1 by (simp add: firstId_Cons)
    qed
  qed
qed

lemma firstId_nonempty: "firstId ns = Some i \<Longrightarrow> i \<noteq> []"
proof (induction ns)
  case Nil
  then show ?case by (simp add: firstId_def)
next
  case (Cons n ns)
  then show ?case
    by (cases "id_B n") (auto simp: firstId_Cons hasId_def split: if_splits)
qed

text \<open>One iteration of the loop over the pages, when the next result is a page.\<close>

lemma pageLoop_Inr_cases:
  assumes "pageLoop h quiet folder lastId (Inr ns # rest) st w = (r, w')"
  obtains
    (abort) "aborted h (tick (emit Next w))" "r = Inr st" "w' = tick (emit Next w)"
  | (fatal) err where "\<not> aborted h (tick (emit Next w))"
      "noteLoop h folder lastId ns st (tick (emit Next w)) = (Inl err, w')" "r = Inl err"
  | (break) st1 where "\<not> aborted h (tick (emit Next w))"
      "noteLoop h folder lastId ns st (tick (emit Next w)) = (Inr st1, w')"
      "shouldStop st1 \<or> aborted h w'" "r = Inr (st1\<lparr>isFirstPage := False\<rparr>)"
  | (continue) st1 w1 w2 where "\<not> aborted h (tick (emit Next w))"
      "noteLoop h folder lastId ns st (tick (emit Next w)) = (Inr st1, w1)"
      "\<not> shouldStop st1" "\<not> aborted h w1"
      "w2 = (if \<not> quiet
             then emit (Notice (S ''Synced '' @ showNat (syncCount st1) @ S '' notes...'')) w1
             else w1)"
      "pageLoop h quiet folder lastId rest (st1\<lparr>isFirstPage := False\<rparr>) w2 = (r, w')"
proof -
  note eq = assms [unfolded pageLoop.simps(3)]
  show ?thesis
  proof (cases "aborted h (tick (emit Next w))")
    case True
    then have "r = Inr st" "w' = tick (emit Next w)" using eq by simp_all
    with True show ?thesis by (rule abort)
  next
    case na: False
    obtain r1 w1 where nl: "noteLoop h folder lastId ns st (tick (emit Next w)) = (r1, w1)"
      by (cases "noteLoop h folder lastId ns st (tick (emit Next w))")
    show ?thesis
    proof (cases r1)
      case (Inl err)
      then have "r = Inl err" "w' = w1" using eq na nl by simp_all
      then show ?thesis using fatal [OF na] nl Inl by simp
    next
      case (Inr st1)
      show ?thesis
      proof (cases "shouldStop st1 \<or> aborted h w1")
        case True
        then have "r = Inr (st1\<lparr>isFirstPage := False\<rparr>)" "w' = w1"
          using eq na nl Inr by auto
        then show ?thesis using break [OF na, of st1] nl Inr True by simp
      next
        case False
        then have "pageLoop h quiet folder lastId rest (st1\<lparr>isFirstPage := False\<rparr>)
                     (if \<not> quiet
                      then emit (Notice (S ''Synced '' @ showNat (syncCount st1) @ S '' notes...'')) w1
                      else w1) = (r, w')"
          using eq na nl Inr by simp
        then show ?thesis
          using continue [OF na, of st1 w1] nl Inr False by simp
      qed
    qed
  qed
qed

lemma pageLoop_keeps_newest:
  "newestNoteId st \<noteq> None \<or> \<not> isFirstPage st \<Longrightarrow>
   pageLoop h quiet folder lastId pages st w = (Inr st', w') \<Longrightarrow>
     newestNoteId st' = newestNoteId st"
proof (induction pages arbitrary: st w)
  case Nil
  then show ?case by simp
next
  case (Cons p pages)
  show ?case
  proof (cases p)
    case (Inl err)
    then show ?thesis using Cons.prems(2) by simp
  next
    case (Inr ns)
    from Cons.prems(2) [unfolded Inr] show ?thesis
    proof (cases rule: pageLoop_Inr_cases)
      case abort
      then show ?thesis by simp
    next
      case (fatal err)
      then show ?thesis by simp
    next
      case (break st1)
      then show ?thesis using noteLoop_keeps_newest [OF Cons.prems(1) break(2)] by auto
    next
      case (continue st1 w1 w2)
      have "newestNoteId (st1\<lparr>isFirstPage := False\<rparr>) \<noteq> None
            \<or> \<not> isFirstPage (st1\<lparr>isFirstPage := False\<rparr>)"
        by simp
      from Cons.IH [OF this continue(6)] show ?thesis
        using noteLoop_keeps_newest [OF Cons.prems(1) continue(2)] by simp
    qed
  qed
qed

lemma pageLoop_first_capture:
  assumes "isFirstPage st" and "newestNoteId st = None"
    and "pageLoop h quiet folder lastId pages st w = (Inr st', w')"
  shows "newestNoteId st' =
           (if aborted h (tick (emit Next w)) then None else firstIdentified pages)"
proof (cases pages)
  case Nil
  then show ?thesis using assms by (simp add: firstIdentified_def)
next
  case (Cons p rest)
  show ?thesis
  proof (cases p)
    case (Inl err)
    then show ?thesis using assms Cons by simp
  next
    case (Inr ns)
    have fi: "firstIdentified pages = firstId ns"
      by (simp add: firstIdentified_def Cons Inr)
    from assms(3) [unfolded Cons Inr] show ?thesis
    proof (cases rule: pageLoop_Inr_cases)
      case abort
      then show ?thesis using assms(2) by simp
    next
      case (fatal err)
      then show ?thesis by simp
    next
      case (break st1)
      then show ?thesis
        using noteLoop_first_capture [OF assms(1,2) break(2)] fi by auto
    next
      case (continue st1 w1 w2)
      have "newestNoteId (st1\<lparr>isFirstPage := False\<rparr>) \<noteq> None
            \<or> \<not> isFirstPage (st1\<lparr>isFirstPage := False\<rparr>)"
        by simp
      from pageLoop_keeps_newest [OF this continue(6)] show ?thesis
        using noteLoop_first_capture [OF assms(1,2) continue(2)] continue(1) fi by simp
    qed
  qed
qed

lemma syncBiji_resolved:
  assumes "syncBiji h pages options w = (None, w')" and "refreshToken (settings w) \<noteq> []"
  obtains j w1 w2 st w3 where
    "refreshJwt h (refreshToken (settings w)) w = (Inr j, w1)"
    "ensureFolder h (targetFolder (settings w)) (w1\<lparr>jwt := j\<rparr>) = (None, w2)"
    "pageLoop h (silentOf options) (targetFolder (settings w)) (lastSyncId (settings w)) pages
       initialLocals w2 = (Inr st, w3)"
    "finalize h (silentOf options) st w3 = (None, w')"
  using assms
  by (auto simp: syncBiji_def Let_def validateRefreshToken_def
           split: prod.splits sum.splits option.splits)

lemma finalize_resolved:
  assumes "finalize h quiet st w = (None, w')"
  shows "settings w' =
           (settings w)\<lparr>lastSyncId := (case newestNoteId st of
                                         Some i \<Rightarrow> if i \<noteq> [] then Some i else lastSyncId (settings w)
                                       | None \<Rightarrow> lastSyncId (settings w)),
                          lastSyncTime := Some (now h (clock w))\<rparr>"
    and "clock w' = Suc (clock w)"
    and "\<exists>summary. trace w' = trace w @ SaveData (settings w') # summary
                     \<and> (\<forall>e \<in> set summary. isNotice e)"
  using assms
  by (auto simp: finalize_def Let_def tick_def emit_def split: option.splits if_splits)

lemma refreshJwt_clock:
  "refreshJwt h token w = (r, w') \<Longrightarrow>
     clock w' = Suc (clock w) \<and> vault w' = vault w \<and> settings w' = settings w"
  by (auto dest!: refreshJwt_world simp: tick_def emit_def)

lemma ensureFolder_clock:
  "ensureFolder h folder w = (r, w') \<Longrightarrow>
     clock w' = clock w
       + (case getAbstractFileByPath h (vault w) (normalizePath h folder) of
            Some (TFolder f) \<Rightarrow> 0
          | _ \<Rightarrow> 1)"
  by (auto simp: ensureFolder_def tick_def emit_def
           split: option.splits abstractFile.splits sum.splits)

lemma aborted_cancelledBy: "aborted h w = cancelledBy h (clock w)"
  by (simp add: aborted_def cancelledBy_def)

text \<open>
  C1 (amended). For every run that passes the token validation and resolves: the
  settings after the run are the settings before it with the last-sync time set to the
  time of the end of the run, and with the cursor set to the first non-empty identifier
  among the notes of the first page; the cursor is left as it was when the first page
  has no such note, when there is no first page, or when the run was cancelled by the
  time the first page arrived. Later notes and pages never change the candidate. The
  settings are saved exactly once in the run, and that is its last effect before the
  summary notice.
\<close>

theorem C1_cursor:
  assumes "syncBiji h pages options w = (None, w')" and "refreshToken (settings w) \<noteq> []"
  shows "settings w' =
           (settings w)\<lparr>lastSyncId :=
                            (if cancelledBy h (firstPageArrival h w) then lastSyncId (settings w)
                             else case firstIdentified pages of
                                    Some i \<Rightarrow> Some i
                                  | None \<Rightarrow> lastSyncId (settings w)),
                          lastSyncTime := Some (now h (clock w' - 1))\<rparr>
       \<and> filter isSaveData (trace w') = filter isSaveData (trace w) @ [SaveData (settings w')]
       \<and> hd (dropWhile isNotice (rev (trace w'))) = SaveData (settings w')"
proof -
  from assms obtain j w1 w2 st w3 where
    r: "refreshJwt h (refreshToken (settings w)) w = (Inr j, w1)" and
    e: "ensureFolder h (targetFolder (settings w)) (w1\<lparr>jwt := j\<rparr>) = (None, w2)" and
    p: "pageLoop h (silentOf options) (targetFolder (settings w)) (lastSyncId (settings w)) pages
          initialLocals w2 = (Inr st, w3)" and
    f: "finalize h (silentOf options) st w3 = (None, w')"
    by (rule syncBiji_resolved)
  have f1: "frame w (w1\<lparr>jwt := j\<rparr>)"
    using frame_refreshJwt [OF r] by (simp add: frame_def)
  have f3: "frame w w3"
    using f1 frame_ensureFolder [OF e] frame_pageLoop [OF p] by (blast intro: frame_trans)
  have c1: "clock w1 = Suc (clock w)" "vault w1 = vault w"
    using refreshJwt_clock [OF r] by simp_all
  have "Suc (clock w2) = firstPageArrival h w"
    using ensureFolder_clock [OF e] c1 by (simp add: firstPageArrival_def)
  then have ab: "aborted h (tick (emit Next w2)) = cancelledBy h (firstPageArrival h w)"
    by (simp add: aborted_cancelledBy tick_def emit_def)
  have new: "newestNoteId st =
               (if cancelledBy h (firstPageArrival h w) then None else firstIdentified pages)"
    using pageLoop_first_capture [OF _ _ p] ab by (simp add: initialLocals_def)
  have ne: "\<And>i. firstIdentified pages = Some i \<Longrightarrow> i \<noteq> []"
    by (auto simp: firstIdentified_def dest: firstId_nonempty split: list.splits sum.splits)
  note fin = finalize_resolved [OF f]
  have s: "settings w3 = settings w" and t: "filter isSaveData (trace w3) = filter isSaveData (trace w)"
    using f3 by (simp_all add: frame_def)
  have "settings w' =
           (settings w)\<lparr>lastSyncId :=
                            (if cancelledBy h (firstPageArrival h w) then lastSyncId (settings w)
                             else case firstIdentified pages of
                                    Some i \<Rightarrow> Some i
                                  | None \<Rightarrow> lastSyncId (settings w)),
                          lastSyncTime := Some (now h (clock w' - 1))\<rparr>"
    using fin(1,2) new s ne by (auto split: option.splits)
  moreover from fin(3) obtain summary where
    tr: "trace w' = trace w3 @ SaveData (settings w') # summary" and
    no: "\<forall>e \<in> set summary. isNotice e"
    by blast
  have "filter isSaveData summary = []"
    using no by (induction summary) (auto elim: isNotice.elims)
  then have "filter isSaveData (trace w') = filter isSaveData (trace w) @ [SaveData (settings w')]"
    using tr t by simp
  moreover have "dropWhile isNotice (rev (trace w'))
                   = SaveData (settings w') # rev (trace w3)"
  proof -
    have "dropWhile isNotice (rev summary @ SaveData (settings w') # rev (trace w3))
            = dropWhile isNotice (SaveData (settings w') # rev (trace w3))"
      using no by (intro dropWhile_append2) simp
    then show ?thesis using tr by simp
  qed
  ultimately show ?thesis by simp
qed

lemma ce_sel:
  "cleanHtml (cancelEnv a) = (\<lambda>s. s)" "normalizePath (cancelEnv a) = (\<lambda>p. p)"
  "buildMarkdown (cancelEnv a) = content_R" "abortTick (cancelEnv a) = a"
  "saveData (cancelEnv a) = (\<lambda>s. None)" "now (cancelEnv a) = (\<lambda>t. 1700000000000 + int t)"
  by (simp_all add: cancelEnv_def exEnv_def)

lemma ce_refresh:
  "refreshJwt (cancelEnv a) (S ''rt'') w
     = (Inr (S ''jwt-1''), tick (emit (RequestUrl exRefreshRequest) w))"
  by (simp add: refreshJwt_def requestUrl_def cancelEnv_def exEnv_def Let_def exRefreshRequest_def)
     (simp add: S_def)

lemma ce_ensure:
  "vault w = [(S ''Get'', None)] \<Longrightarrow> ensureFolder (cancelEnv a) (S ''Get'') w = (None, w)"
  by (simp add: ensureFolder_def cancelEnv_def exEnv_def)

lemma ce_aborted: "aborted (cancelEnv a) w = (case a of Some t \<Rightarrow> t \<le> clock w | None \<Rightarrow> False)"
  by (simp add: aborted_def ce_sel)

lemma ce_get:
  "getAbstractFileByPath (cancelEnv a) [(S ''Get'', None)] (S ''Get/My Note.md'') = None"
  by (simp add: cancelEnv_def exEnv_def S_def)

lemma ce_create:
  "vault_create (cancelEnv a) [(S ''Get'', None)] (S ''Get/My Note.md'') d
     = Inr [(S ''Get'', None), (S ''Get/My Note.md'', Some JNull)]"
  by (simp add: cancelEnv_def exEnv_def S_def)

lemma ce_process:
  "vault w = [(S ''Get'', None)] \<Longrightarrow>
     processNote (cancelEnv a) (S ''Get'') exampleNote w
       = (Inr True, (tick (emit (Create (S ''Get/My Note.md'') (S ''Hello'')) w))
                      \<lparr>vault := [(S ''Get'', None), (S ''Get/My Note.md'', Some JNull)]\<rparr>)"
  by (simp add: processNote_def ce_sel ex_raw Let_def resolveFilename_spec_example ex_fields
        ex_path ce_get ne_link vaultCreate_def ce_create)

lemma ex_settings:
  "refreshToken (settings exWorld) = S ''rt''" "targetFolder (settings exWorld) = S ''Get''"
  "lastSyncId (settings exWorld) = None" "vault exWorld = [(S ''Get'', None)]"
  "clock exWorld = 0" "trace exWorld = []"
  by (simp_all add: exWorld_def)

lemma rt_nonempty: "S ''rt'' \<noteq> []"
  by (simp add: S_def)

lemma C1_cx_run:
  "syncBiji (cancelEnv (Some 2)) [Inr [exampleNote]] None exWorld
     = (None,
        emit (Notice (S ''Sync cancelled: 0 new, 0 skipped''))
          (tick (emit (SaveData ((settings exWorld)\<lparr>lastSyncTime := Some 1700000000002\<rparr>))
            ((tick (emit Next ((tick (emit (RequestUrl exRefreshRequest) exWorld))\<lparr>jwt := S ''jwt-1''\<rparr>)))
               \<lparr>settings := (settings exWorld)\<lparr>lastSyncTime := Some 1700000000002\<rparr>\<rparr>))))"
  apply (simp add: syncBiji_def ex_settings validateRefreshToken_def rt_nonempty ce_refresh
      ce_ensure silentOf_def Let_def ce_aborted initialLocals_def finalize_def ce_sel showNat_digit)
  apply (simp add: S_def)
  done

lemma examplePages_first: "firstIdentified [Inr [noIdNote, exampleNote]] = Some (S ''xyz789'')"
  by (simp add: firstIdentified_def firstId_def hasId_def noIdNote_def exampleNote_def S_def)

lemma noId: "\<not> hasId noIdNote"
  by (simp add: hasId_def noIdNote_def)

lemma ex_hasId: "hasId exampleNote"
  by (simp add: hasId_def exampleNote_def S_def)

lemma ex_noteLoop:
  "vault w = [(S ''Get'', None)] \<Longrightarrow>
     noteLoop (cancelEnv None) (S ''Get'') None [exampleNote] st w
       = (Inr ((capture exampleNote st)\<lparr>syncCount := syncCount (capture exampleNote st) + 1\<rparr>),
          (tick (emit (Create (S ''Get/My Note.md'') (S ''Hello'')) w))
             \<lparr>vault := [(S ''Get'', None), (S ''Get/My Note.md'', Some JNull)]\<rparr>)"
  by (simp add: ce_aborted reachedLastSync_def ce_process)

lemma ex_run_resolves:
  "fst (syncBiji (cancelEnv None) [Inr [noIdNote, exampleNote]] None exWorld) = None"
  by (simp add: syncBiji_def ex_settings validateRefreshToken_def rt_nonempty ce_refresh
      ce_ensure silentOf_def Let_def ce_aborted initialLocals_def finalize_def ce_sel
      reachedLastSync_def processNote_noId noId ce_process capture_noId)

text \<open>A run over one page whose first note has no identifier: the cursor is the second note's.\<close>

theorem C1_cursor_witness:
  "fst (syncBiji (cancelEnv None) [Inr [noIdNote, exampleNote]] None exWorld) = None
   \<and> lastSyncId (settings (snd (syncBiji (cancelEnv None) [Inr [noIdNote, exampleNote]] None exWorld)))
       = Some (S ''xyz789'')
   \<and> filter isSaveData (trace (snd (syncBiji (cancelEnv None) [Inr [noIdNote, exampleNote]] None exWorld)))
       = [SaveData (settings (snd (syncBiji (cancelEnv None) [Inr [noIdNote, exampleNote]] None exWorld)))]"
proof -
  have run: "syncBiji (cancelEnv None) [Inr [noIdNote, exampleNote]] None exWorld
               = (None, snd (syncBiji (cancelEnv None) [Inr [noIdNote, exampleNote]] None exWorld))"
    using ex_run_resolves by (simp add: prod_eq_iff)
  have valid: "refreshToken (settings exWorld) \<noteq> []"
    by (simp add: ex_settings rt_nonempty)
  from C1_cursor [OF run valid] show ?thesis
    using ex_run_resolves
    by (simp add: cancelledBy_def ce_sel examplePages_first ex_settings)
qed

text \<open>
  C1 as stated fails under cancellation: when \<open>abort()\<close> is called while the first
  page is being fetched, the run completes, the first fetched page has a first note
  \<open>xyz789\<close>, and the stored cursor stays \<open>null\<close>.
\<close>

theorem C1_counterexample:
  "fst (syncBiji (cancelEnv (Some 2)) [Inr [exampleNote]] None exWorld) = None
   \<and> id_B exampleNote = Value (S ''xyz789'')
   \<and> lastSyncId (settings (snd (syncBiji (cancelEnv (Some 2)) [Inr [exampleNote]] None exWorld)))
       = None"
  by (simp add: C1_cx_run ex_fields ex_settings)

section \<open>Sync orchestrator: the incremental stop\<close>

lemma noteLoop_stop_world:
  "reachedLastSync lastId n \<Longrightarrow>
     snd (noteLoop h folder lastId (pre @ n # post) st w) = snd (noteLoop h folder lastId pre st w)"
  by (induction pre arbitrary: st w) (auto split: prod.splits sum.splits bool.splits)

lemma noteLoop_stop_post:
  "reachedLastSync lastId n \<Longrightarrow>
     noteLoop h folder lastId (pre @ n # post) st w = noteLoop h folder lastId (pre @ [n]) st w"
  by (induction pre arbitrary: st w) (auto split: prod.splits sum.splits bool.splits)

lemma noteLoop_stop_flag:
  "reachedLastSync lastId n \<Longrightarrow>
   noteLoop h folder lastId (pre @ n # post) st w = (Inr st1, w1) \<Longrightarrow>
     shouldStop st1 \<or> aborted h w1"
proof (induction pre arbitrary: st w)
  case Nil
  then show ?case by (auto split: if_splits)
next
  case (Cons m pre)
  from Cons.prems(2) [simplified append_Cons] show ?case
  proof (cases rule: noteLoop_Cons_cases)
    case (continue st2 w2)
    from Cons.IH [OF Cons.prems(1) continue(3)] show ?thesis .
  qed auto
qed

lemma pageLoop_stop:
  "reachedLastSync lastId n \<Longrightarrow>
     pageLoop h quiet folder lastId (ps @ Inr (pre @ n # post) # rest) st w
       = pageLoop h quiet folder lastId (ps @ [Inr (pre @ [n])]) st w"
proof (induction ps arbitrary: st w)
  case Nil
  show ?case
  proof (cases "aborted h (tick (emit Next w))")
    case True
    then show ?thesis by simp
  next
    case False
    obtain r1 w1 where nl: "noteLoop h folder lastId (pre @ n # post) st (tick (emit Next w)) = (r1, w1)"
      by (cases "noteLoop h folder lastId (pre @ n # post) st (tick (emit Next w))")
    have nl': "noteLoop h folder lastId (pre @ [n]) st (tick (emit Next w)) = (r1, w1)"
      using nl noteLoop_stop_post [OF Nil, of h folder pre post st "tick (emit Next w)"]
      by (simp only:)
    show ?thesis
    proof (cases r1)
      case (Inl err)
      then show ?thesis using False nl nl' by simp
    next
      case (Inr st1)
      then have "shouldStop st1 \<or> aborted h w1"
        using noteLoop_stop_flag [OF Nil] nl by blast
      then show ?thesis using False nl nl' Inr by auto
    qed
  qed
next
  case (Cons p ps)
  show ?case
  proof (cases p)
    case (Inl err)
    then show ?thesis by simp
  next
    case (Inr ns)
    then show ?thesis
      using Cons.IH [OF Cons.prems] by (auto split: prod.splits sum.splits)
  qed
qed

text \<open>
  C5. When a note of a page carries the stored cursor, the run is the same as if the
  fetcher had yielded nothing after that note: neither the notes after it on the page
  nor any later page are looked at. The world after the loop over that page is the
  world after the loop over the notes before the match, so nothing is done for the
  matching note either.
\<close>

theorem C5_incremental_stop:
  assumes "reachedLastSync (lastSyncId (settings w)) n"
  shows "syncBiji h (ps @ Inr (pre @ n # post) # rest) options w
           = syncBiji h (ps @ [Inr (pre @ [n])]) options w
       \<and> snd (noteLoop h folder (lastSyncId (settings w)) (pre @ n # post) st w1)
           = snd (noteLoop h folder (lastSyncId (settings w)) pre st w1)"
proof -
  have pl: "pageLoop h quiet folder' (lastSyncId (settings w)) (ps @ Inr (pre @ n # post) # rest) st' w'
          = pageLoop h quiet folder' (lastSyncId (settings w)) (ps @ [Inr (pre @ [n])]) st' w'"
    for quiet folder' st' w'
    by (rule pageLoop_stop [OF assms])
  show ?thesis
    unfolding syncBiji_def Let_def pl
    by (simp add: noteLoop_stop_world [OF assms])
qed

theorem C7_missing_identifier_witness:
  "\<not> hasId noIdNote
   \<and> bijiNoteToRawNote (cleanHtml (cancelEnv None)) noIdNote = None
   \<and> map_sum id syncCount
         (fst (noteLoop (cancelEnv None) (S ''Get'') None [noIdNote, exampleNote] initialLocals exWorld))
       = Inr 1
   \<and> map_sum id syncCount
         (fst (noteLoop (cancelEnv None) (S ''Get'') None [exampleNote] initialLocals exWorld))
       = Inr 1
   \<and> \<not> aborted (cancelEnv None) exWorld
   \<and> map_sum id skipCount
         (fst (noteLoop (cancelEnv None) (S ''Get'') None [noIdNote, exampleNote] initialLocals exWorld))
       = Inr 1
   \<and> map_sum id skipCount
         (fst (noteLoop (cancelEnv None) (S ''Get'') None [exampleNote] initialLocals exWorld))
       = Inr 0"
proof -
  note t = C7_missing_identifier [of noIdNote "cancelEnv None" "S ''Get''" exWorld None
      "[noIdNote, exampleNote]" initialLocals]
  note u = C7_missing_identifier [of noIdNote "cancelEnv None" "S ''Get''" exWorld None
      "[exampleNote]" initialLocals]
  have f: "filter hasId [noIdNote, exampleNote] = [exampleNote]"
    by (simp add: noId ex_hasId)
  have na: "\<not> aborted (cancelEnv None) exWorld"
    by (simp add: ce_aborted)
  have e: "map_sum id syncCount
             (fst (noteLoop (cancelEnv None) (S ''Get'') None [exampleNote] initialLocals exWorld))
           = Inr 1"
    by (simp only: ex_noteLoop [OF ex_settings(4)]) (simp add: capture_def initialLocals_def)
  have k0: "map_sum id skipCount
             (fst (noteLoop (cancelEnv None) (S ''Get'') None [exampleNote] initialLocals exWorld))
           = Inr 0"
    by (simp only: ex_noteLoop [OF ex_settings(4)]) (simp add: capture_def initialLocals_def)
  have "bijiNoteToRawNote (cleanHtml (cancelEnv None)) noIdNote = None"
    using t noId by blast
  moreover have "map_sum id syncCount
         (fst (noteLoop (cancelEnv None) (S ''Get'') None [noIdNote, exampleNote] initialLocals exWorld))
       = Inr 1"
    using conjunct1 [OF conjunct2 [OF conjunct2 [OF t]]] unfolding f e .
  moreover have "noteLoop (cancelEnv None) (S ''Get'') None [noIdNote, exampleNote] initialLocals exWorld
       = noteLoop (cancelEnv None) (S ''Get'') None [exampleNote]
           (initialLocals\<lparr>skipCount := skipCount initialLocals + 1\<rparr>) exWorld"
    using conjunct1 [OF conjunct2 [OF u]] noId na by blast
  then have "map_sum id skipCount
         (fst (noteLoop (cancelEnv None) (S ''Get'') None [noIdNote, exampleNote] initialLocals exWorld))
       = Inr 1"
    by (simp only: ex_noteLoop [OF ex_settings(4)]) (simp add: capture_def initialLocals_def)
  ultimately show ?thesis using noId e k0 na by blast
qed

lemma newer_raw:
  "bijiNoteToRawNote (\<lambda>s. s) newerNote
     = Some (exampleRaw\<lparr>id_R := S ''abc123'', title_R := S ''Newer''\<rparr>)"
  by (simp add: bijiNoteToRawNote_def newerNote_def exampleNote_def exampleRaw_def Let_def S_def)

lemma newer_name: "resolveFilename (S ''Newer'') (S ''abc123'') JUndefined = S ''Newer''"
  by (simp add: resolveFilename_def sanitizeFilename_def S_def UNSAFE_CHARS_def trim_def
        isWhiteSpace_def Let_def)

lemma ce_process_newer:
  "vault w = [(S ''Get'', None)] \<Longrightarrow>
     processNote (cancelEnv a) (S ''Get'') newerNote w
       = (Inr True, (tick (emit (Create (S ''Get/Newer.md'') (S ''Hello'')) w))
                      \<lparr>vault := [(S ''Get'', None), (S ''Get/Newer.md'', Some JNull)]\<rparr>)"
  apply (simp add: processNote_def ce_sel newer_raw Let_def newer_name vaultCreate_def)
  apply (simp add: exampleRaw_def cancelEnv_def exEnv_def S_def)
  done

lemma cursor_settings:
  "refreshToken (settings cursorWorld) = S ''rt''" "targetFolder (settings cursorWorld) = S ''Get''"
  "lastSyncId (settings cursorWorld) = Some (S ''xyz789'')" "vault cursorWorld = [(S ''Get'', None)]"
  "clock cursorWorld = 0" "trace cursorWorld = []"
  by (simp_all add: cursorWorld_def exWorld_def)

lemma cursor_reached: "reachedLastSync (Some (S ''xyz789'')) exampleNote"
  by (simp add: reachedLastSync_def exampleNote_def S_def)

lemma newer_not_reached: "\<not> reachedLastSync (Some (S ''xyz789'')) newerNote"
  by (simp add: reachedLastSync_def newerNote_def S_def)

lemma cursor_run_trace:
  "trace (snd (syncBiji (cancelEnv None) [Inr [newerNote, exampleNote]] None cursorWorld))
     = [RequestUrl exRefreshRequest, Next, Create (S ''Get/Newer.md'') (S ''Hello''),
        SaveData ((settings cursorWorld)\<lparr>lastSyncId := Some (S ''abc123''),
                                         lastSyncTime := Some 1700000000003\<rparr>),
        Notice (S ''Sync complete: 1 new, 0 skipped, 0 errors'')]"
  apply (simp add: syncBiji_def cursor_settings validateRefreshToken_def rt_nonempty ce_refresh
      ce_ensure silentOf_def Let_def ce_aborted initialLocals_def finalize_def ce_sel showNat_digit
      cursor_reached newer_not_reached ce_process_newer capture_def)
  apply (simp add: newerNote_def S_def)
  done

text \<open>
  A run with cursor \<open>xyz789\<close> over a page \<open>abc123, xyz789, old000\<close> and a second
  page: one file is created, for \<open>abc123\<close>.
\<close>

theorem C5_incremental_stop_witness:
  "reachedLastSync (lastSyncId (settings cursorWorld)) exampleNote
   \<and> trace (snd (syncBiji (cancelEnv None)
         [Inr [newerNote, exampleNote, olderNote], Inr [olderNote]] None cursorWorld))
     = [RequestUrl exRefreshRequest, Next, Create (S ''Get/Newer.md'') (S ''Hello''),
        SaveData ((settings cursorWorld)\<lparr>lastSyncId := Some (S ''abc123''),
                                         lastSyncTime := Some 1700000000003\<rparr>),
        Notice (S ''Sync complete: 1 new, 0 skipped, 0 errors'')]"
proof -
  have r: "reachedLastSync (lastSyncId (settings cursorWorld)) exampleNote"
    by (simp add: cursor_settings cursor_reached)
  from C5_incremental_stop [OF r, of "cancelEnv None" "[]" "[newerNote]" "[olderNote]"
      "[Inr [olderNote]]" None]
  show ?thesis using r by (simp add: cursor_run_trace)
qed

section \<open>Token decoding\<close>

lemma splitOn_nonempty: "splitOn d s \<noteq> []"
  by (induction s) (auto split: list.splits)

lemma length_splitOn: "length (splitOn d s) = Suc (length (filter (\<lambda>c. c = d) s))"
  by (induction s) (auto split: list.splits simp: splitOn_nonempty)

text \<open>
  C10. \<open>decodeJwt\<close> is total: every statement that can throw is inside the \<open>try\<close>
  and is a branch of the model. It returns a payload exactly when the token has three
  dot-separated segments (that is, two dots), \<open>atob\<close> decodes the middle segment, after
  the replacement of \<open>-\<close> and \<open>_\<close> and the padding, to a text that \<open>JSON.parse\<close>
  reads as that payload, and the payload's \<open>exp\<close> is a number; it returns \<open>null\<close> in
  every other case.
\<close>

theorem C10_decodeJwt:
  "(decodeJwt h token = Some payload \<longleftrightarrow>
      length (splitOn 0x2E token) = 3
      \<and> (\<exists>jsonString n. atob h (base64Padded (splitOn 0x2E token ! 1)) = Inr jsonString
            \<and> JSON_parse h jsonString = Inr payload
            \<and> optProp payload (S ''exp'') = JNumber n))
   \<and> (decodeJwt h token = None \<longleftrightarrow>
      length (splitOn 0x2E token) \<noteq> 3
      \<or> (\<forall>jsonString. atob h (base64Padded (splitOn 0x2E token ! 1)) = Inr jsonString \<longrightarrow>
            (\<forall>p. JSON_parse h jsonString = Inr p \<longrightarrow>
               (\<forall>n. optProp p (S ''exp'') \<noteq> JNumber n))))
   \<and> length (splitOn 0x2E token) = Suc (length (filter (\<lambda>c. c = 0x2E) token))"
  by (auto simp: decodeJwt_def base64Padded_def Let_def length_splitOn
           split: sum.splits jsval.splits)

lemma test_split:
  "splitOn 0x2E (S ''header.eyJleHAiOjk5OTk5OTk5OTksInVpZCI6MX0.sig'')
     = [S ''header'', S ''eyJleHAiOjk5OTk5OTk5OTksInVpZCI6MX0'', S ''sig'']"
  by (simp add: S_def)

lemma test_padded:
  "base64Padded (S ''eyJleHAiOjk5OTk5OTk5OTksInVpZCI6MX0'')
     = S ''eyJleHAiOjk5OTk5OTk5OTksInVpZCI6MX0=''"
  by (simp add: base64Padded_def S_def Let_def)

lemma test_atob:
  "atobForgiving (S ''eyJleHAiOjk5OTk5OTk5OTksInVpZCI6MX0='')
     = Inr (S ''{'' @ [0x22] @ S ''exp'' @ [0x22] @ S '':9999999999,'' @ [0x22] @ S ''uid''
                      @ [0x22] @ S '':1}'')"
  by (simp add: atobForgiving_def S_def Let_def base64Value_def)

lemma jwtEnv_sel:
  "atob jwtEnv = atobForgiving"
  "JSON_parse jwtEnv (S ''{'' @ [0x22] @ S ''exp'' @ [0x22] @ S '':9999999999,'' @ [0x22] @ S ''uid''
                      @ [0x22] @ S '':1}'')
     = Inr (JObject [(S ''exp'', JNumber (Num 9999999999)), (S ''uid'', JNumber (Num 1))])"
  by (simp_all add: jwtEnv_def)

lemma test_exp:
  "optProp (JObject [(S ''exp'', JNumber (Num 9999999999)), (S ''uid'', JNumber (Num 1))]) (S ''exp'')
     = JNumber (Num 9999999999)"
  by simp

lemma test_split_bad: "length (splitOn 0x2E (S ''not-a-token'')) = 1"
  by (simp add: S_def)

theorem C10_decodeJwt_witness:
  "decodeJwt jwtEnv (S ''header.eyJleHAiOjk5OTk5OTk5OTksInVpZCI6MX0.sig'')
     = Some (JObject [(S ''exp'', JNumber (Num 9999999999)), (S ''uid'', JNumber (Num 1))])
   \<and> decodeJwt jwtEnv (S ''not-a-token'') = None"
proof -
  let ?p = "JObject [(S ''exp'', JNumber (Num 9999999999)), (S ''uid'', JNumber (Num 1))]"
  note t = C10_decodeJwt [of jwtEnv "S ''header.eyJleHAiOjk5OTk5OTk5OTksInVpZCI6MX0.sig''" ?p]
  have "atob jwtEnv (base64Padded
           (splitOn 0x2E (S ''header.eyJleHAiOjk5OTk5OTk5OTksInVpZCI6MX0.sig'') ! 1))
        = Inr (S ''{'' @ [0x22] @ S ''exp'' @ [0x22] @ S '':9999999999,'' @ [0x22] @ S ''uid''
                      @ [0x22] @ S '':1}'')"
    by (simp add: test_split test_padded jwtEnv_sel test_atob)
  then have "length (splitOn 0x2E (S ''header.eyJleHAiOjk5OTk5OTk5OTksInVpZCI6MX0.sig'')) = 3
      \<and> (\<exists>jsonString n.
            atob jwtEnv (base64Padded
              (splitOn 0x2E (S ''header.eyJleHAiOjk5OTk5OTk5OTksInVpZCI6MX0.sig'') ! 1))
              = Inr jsonString
            \<and> JSON_parse jwtEnv jsonString = Inr ?p
            \<and> optProp ?p (S ''exp'') = JNumber n)"
    using jwtEnv_sel(2) test_exp by (simp add: test_split)
  with t have 1: "decodeJwt jwtEnv (S ''header.eyJleHAiOjk5OTk5OTk5OTksInVpZCI6MX0.sig'') = Some ?p"
    by blast
  from C10_decodeJwt [of jwtEnv "S ''not-a-token''" ?p] test_split_bad
  have "decodeJwt jwtEnv (S ''not-a-token'') = None"
    by simp
  with 1 show ?thesis by simp
qed

section \<open>One run at a time\<close>

lemma enter_busy:
  "syncing w \<Longrightarrow>
     triggerSync_enter options w
       = (False, if silentOf options then w else emit (Notice (S ''Sync already in progress'')) w)"
  by (simp add: triggerSync_enter_def)

lemma enter_idle:
  "\<not> syncing w \<Longrightarrow> fst (triggerSync_enter options w) \<and> syncing (snd (triggerSync_enter options w))"
  by (simp add: triggerSync_enter_def emit_def)

lemma enter_keeps_syncing:
  "syncing w \<Longrightarrow> syncing (snd (triggerSync_enter options w))"
  by (simp add: triggerSync_enter_def emit_def)

lemma leave_idle: "\<not> syncing (triggerSync_leave options result w)"
  by (simp add: triggerSync_leave_def Let_def)

lemma act_oneRun: "oneRun s \<Longrightarrow> oneRun (act a s)"
proof (cases s)
  case (Pair w running)
  assume inv: "oneRun s"
  show ?thesis
  proof (cases a)
    case (Trigger options)
    show ?thesis
    proof (cases "syncing w")
      case True
      then show ?thesis
        using inv Pair Trigger enter_keeps_syncing [of w options]
        by (simp add: oneRun_def enter_busy)
    next
      case False
      then show ?thesis
        using inv Pair Trigger enter_idle [of w options]
        by (cases "triggerSync_enter options w") (auto simp: oneRun_def)
    qed
  next
    case (Progress e)
    then show ?thesis using inv Pair by (simp add: oneRun_def emit_def)
  next
    case (Settle result)
    then show ?thesis
      using inv Pair by (cases running) (auto simp: oneRun_def leave_idle)
  qed
qed

lemma schedule_oneRun: "oneRun s \<Longrightarrow> oneRun (schedule acts s)"
  unfolding schedule_def
  by (induction acts arbitrary: s) (simp_all add: act_oneRun)

text \<open>
  C9. From an idle plugin, after any sequence of triggers, effects of the run and
  settlings, at most one run is in progress, and it is in progress exactly when
  \<open>syncing\<close> is set. A trigger that arrives then starts nothing and queues nothing: a
  silent one leaves the plugin as it is, any other one only shows the notice
  "Sync already in progress".
\<close>

theorem C9_single_run:
  assumes "\<not> syncing w0" and "schedule acts (w0, []) = (w, running)"
  shows "length running \<le> 1 \<and> (running \<noteq> [] \<longleftrightarrow> syncing w)
       \<and> (running \<noteq> [] \<longrightarrow>
            act (Trigger options) (w, running)
              = (if silentOf options then w else emit (Notice (S ''Sync already in progress'')) w,
                 running)
            \<and> triggerSync h pages options w
              = (if silentOf options then w else emit (Notice (S ''Sync already in progress'')) w))"
proof -
  have "oneRun (w0, [])" using assms(1) by (simp add: oneRun_def)
  from schedule_oneRun [OF this, of acts] have inv: "oneRun (w, running)"
    using assms(2) by simp
  then show ?thesis
    by (auto simp: oneRun_def enter_busy triggerSync_def)
qed

lemma ex_idle: "\<not> syncing exWorld"
  by (simp add: exWorld_def)

lemma ex_started: "schedule [Trigger None] (exWorld, []) = (busyWorld, [None])"
  by (simp add: schedule_def triggerSync_enter_def ex_idle silentOf_def busyWorld_def)

theorem C9_single_run_witness:
  "schedule [Trigger None] (exWorld, []) = (busyWorld, [None])
   \<and> act (Trigger (Some \<lparr>silent = Some True\<rparr>)) (busyWorld, [None]) = (busyWorld, [None])
   \<and> act (Trigger None) (busyWorld, [None])
       = (emit (Notice (S ''Sync already in progress'')) busyWorld, [None])
   \<and> triggerSync exEnv [] (Some \<lparr>silent = Some True\<rparr>) busyWorld = busyWorld"
  using C9_single_run [OF ex_idle ex_started, of "Some \<lparr>silent = Some True\<rparr>" exEnv "[]"]
    C9_single_run [OF ex_idle ex_started, of None exEnv "[]"] ex_started
  by (simp add: silentOf_def)

end
